theory Spec2Isabelle
  imports Main "HOL-Library.Word" "HOL-Library.Char_ord" "HOL-Library.AList"
begin

section \<open>SDLang for Go: tokenizer (SaxParser) and tree builder (ParseIntoAst)\<close>

text \<open>
  A shallow embedding of the package \<open>sdlang\<close>: the value model and the tree builder of
  \<open>ast.go\<close> and the tokenizer \<open>SaxParser\<close>. A Go string is a sequence of bytes, here a
  \<open>string\<close> (a list of 8-bit \<open>char\<close>). A Go call ends in one of three ways, and the model
  keeps them apart: it returns, it returns a non-nil \<open>error\<close>, or it panics.

  Names are the source's. Where Go tells a field, a method and a constant of the same name
  apart by their scope, the model adds a prime: the \<open>saxType\<close> constants \<open>string_\<close> and
  \<open>null\<close> are \<open>string'\<close> and \<open>null'\<close>; the fields \<open>text\<close>, \<open>dateTime\<close>, \<open>timeSpan\<close> and
  \<open>boolean\<close> of \<open>SaxParser\<close> are \<open>text'\<close>, \<open>dateTime'\<close>, \<open>timeSpan'\<close> and \<open>boolean'\<close>; the
  method \<open>eof()\<close> is \<open>eof'\<close>; the constructor \<open>Int\<close> is \<open>Int'\<close>; the methods \<open>Time()\<close>,
  \<open>TimeSpan()\<close> and \<open>Bool()\<close> of \<open>SaxParser\<close> are \<open>Time_of\<close>, \<open>TimeSpan_of\<close> and \<open>Bool_of\<close>.
  Methods that exist on both \<open>SaxParser\<close> and \<open>SdlValue\<close> carry the receiver's name on the
  \<open>SdlValue\<close> side (\<open>SdlValue_IsFloat\<close>). A loop of the source is a recursive function named
  after the function it belongs to (\<open>identifierLoop\<close>, \<open>numericLoop\<close>, \<open>parseLoop\<close>).

  When \<open>Next\<close> returns an error the model keeps the error and not the state of the
  tokenizer: \<open>ParseIntoAst\<close> stops at the first error.
\<close>

subsection \<open>Outcomes of a call\<close>

text \<open>
  Every error of the package is \<open>errors.New(d.String())\<close> for a \<open>decorator.Decorator d\<close> of
  an external library; the rendered text is a function of the calls made on \<open>d\<close>, and the
  model keeps that sequence of calls.
\<close>

datatype decoratorCall =
    AddLine string string nat          \<comment> \<open>line text, \<open>FileName\<close>, \<open>LineNumber\<close>\<close>
  | AddBottomComment nat int string    \<comment> \<open>line index, column, message\<close>

type_synonym error = "decoratorCall list"

datatype 'a outcome =
    Returns 'a
  | Fails error      \<comment> \<open>a non-nil \<open>error\<close> was returned\<close>
  | Panics string    \<comment> \<open>a run-time panic: index or slice out of range, or \<open>panic(...)\<close>\<close>

fun bind :: "'a outcome \<Rightarrow> ('a \<Rightarrow> 'b outcome) \<Rightarrow> 'b outcome" where
  "bind (Returns x) f = f x"
| "bind (Fails e) f = Fails e"
| "bind (Panics m) f = Panics m"

text \<open>Go's \<open>s[lo:hi]\<close> on a string: it panics unless \<open>lo \<le> hi \<le> len(s)\<close>.\<close>

definition slice :: "string \<Rightarrow> nat \<Rightarrow> nat \<Rightarrow> string outcome" where
  "slice s lo hi =
     (if lo \<le> hi \<and> hi \<le> length s then Returns (take (hi - lo) (drop lo s))
      else Panics ''slice bounds out of range'')"

subsection \<open>Characters\<close>

abbreviation SP :: char where "SP \<equiv> CHR '' ''"
abbreviation TAB :: char where "TAB \<equiv> CHR 0x09"
abbreviation LF :: char where "LF \<equiv> CHR 0x0A"
abbreviation CR :: char where "CR \<equiv> CHR 0x0D"
abbreviation DQUOTE :: char where "DQUOTE \<equiv> CHR 0x22"
abbreviation BACKSLASH :: char where "BACKSLASH \<equiv> CHR 0x5C"
abbreviation BACKTICK :: char where "BACKTICK \<equiv> CHR 0x60"

definition isIdentifierStart :: "char \<Rightarrow> bool" where
  "isIdentifierStart ch \<longleftrightarrow>
     (CHR ''a'' \<le> ch \<and> ch \<le> CHR ''z'') \<or> (CHR ''A'' \<le> ch \<and> ch \<le> CHR ''Z'') \<or> ch = CHR ''_''"

definition isDigit :: "char \<Rightarrow> bool" where
  "isDigit ch \<longleftrightarrow> CHR ''0'' \<le> ch \<and> ch \<le> CHR ''9''"

definition isIdentifierContinue :: "char \<Rightarrow> bool" where
  "isIdentifierContinue ch \<longleftrightarrow>
     (CHR ''a'' \<le> ch \<and> ch \<le> CHR ''z'') \<or>
     (CHR ''A'' \<le> ch \<and> ch \<le> CHR ''Z'') \<or>
     ch = CHR ''_'' \<or>
     (CHR ''0'' \<le> ch \<and> ch \<le> CHR ''9'') \<or>
     ch = CHR ''-'' \<or>
     ch = CHR ''.'' \<or>
     ch = CHR ''$''"

subsection \<open>Go's standard library: \<open>strconv\<close> and \<open>time\<close>\<close>

text \<open>
  \<open>strconv.Atoi\<close> and \<open>strconv.ParseInt(s, 10, 64)\<close> on a 64-bit platform: an optional sign
  and at least one decimal digit. Both return a value together with an error; on a syntax
  error the value is 0, out of range it is the nearest bound. The flag is \<open>err != nil\<close>.
\<close>

definition digitVal :: "char \<Rightarrow> int" where
  "digitVal ch = int (of_char ch) - 48"

fun digitsVal :: "int \<Rightarrow> string \<Rightarrow> int" where
  "digitsVal n [] = n"
| "digitsVal n (ch # cs) = digitsVal (n * 10 + digitVal ch) cs"

definition maxInt64 :: int where "maxInt64 = 9223372036854775807"
definition minInt64 :: int where "minInt64 = - 9223372036854775808"

definition Atoi :: "string \<Rightarrow> int \<times> bool" where
  "Atoi s =
     (let neg = (s \<noteq> [] \<and> hd s = CHR ''-'');
          ds = (if s \<noteq> [] \<and> (hd s = CHR ''+'' \<or> hd s = CHR ''-'') then tl s else s)
      in if ds = [] \<or> \<not> list_all isDigit ds then (0, True)
         else let n = digitsVal 0 ds; v = (if neg then - n else n)
              in if maxInt64 < v then (maxInt64, True)
                 else if v < minInt64 then (minInt64, True)
                 else (v, False))"

definition ParseInt :: "string \<Rightarrow> int \<times> bool" where
  "ParseInt s = Atoi s"

text \<open>
  \<open>time.Duration\<close> is an \<open>int64\<close> count of nanoseconds; its arithmetic wraps around.
\<close>

type_synonym Duration = "64 word"

definition Nanosecond :: Duration where "Nanosecond = 1"
definition Microsecond :: Duration where "Microsecond = 1000 * Nanosecond"
definition Millisecond :: Duration where "Millisecond = 1000 * Microsecond"
definition Second :: Duration where "Second = 1000 * Millisecond"
definition Minute :: Duration where "Minute = 60 * Second"
definition Hour :: Duration where "Hour = 60 * Minute"

text \<open>
  A \<open>time.Time\<close> in UTC is an instant: the seconds since January 1 of year 1, 00:00:00 UTC
  (the zero \<open>Time\<close>) and the nanoseconds within the second. \<open>time.Date\<close> accepts values
  outside their usual ranges and normalises them (a month 13 is January of the next year,
  an \<open>nsec\<close> of \<open>10^9\<close> is one more second), in the proleptic Gregorian calendar.
\<close>

datatype Time = Time (sec: int) (nsec: int)

definition zeroTime :: Time where
  "zeroTime = Time 0 0"

definition isLeap :: "int \<Rightarrow> bool" where
  "isLeap year \<longleftrightarrow> year mod 4 = 0 \<and> (year mod 100 \<noteq> 0 \<or> year mod 400 = 0)"

text \<open>Days from January 1 of year 1 to January 1 of \<open>year\<close>.\<close>

definition daysSinceEpoch :: "int \<Rightarrow> int" where
  "daysSinceEpoch year =
     (let y = year - 1 in 365 * y + y div 4 - y div 100 + y div 400)"

definition daysBefore :: "int list" where
  "daysBefore = [0, 31, 59, 90, 120, 151, 181, 212, 243, 273, 304, 334, 365]"

definition Date :: "int \<Rightarrow> int \<Rightarrow> int \<Rightarrow> int \<Rightarrow> int \<Rightarrow> int \<Rightarrow> int \<Rightarrow> Time" where
  "Date year month day hour minute second nanos =
     (let m = month - 1;
          year1 = year + m div 12;
          month1 = m mod 12 + 1;
          second1 = second + nanos div 1000000000;
          nsec1 = nanos mod 1000000000;
          d = daysSinceEpoch year1 + daysBefore ! nat (month1 - 1)
              + (if isLeap year1 \<and> 3 \<le> month1 then 1 else 0)
              + (day - 1)
      in Time (d * 86400 + hour * 3600 + minute * 60 + second1) nsec1)"

text \<open>
  The calendar date of an instant (\<open>Time.Year\<close>, \<open>Time.Month\<close>, \<open>Time.Day\<close>): the days
  since the epoch are counted from March 1 of year 0, in eras of 400 years.
\<close>

definition civil :: "Time \<Rightarrow> int \<times> int \<times> int" where
  "civil tm =
     (let z = sec tm div 86400 + 306;
          era = z div 146097;
          doe = z mod 146097;
          yoe = (doe - doe div 1460 + doe div 36524 - doe div 146096) div 365;
          doy = doe - (365 * yoe + yoe div 4 - yoe div 100);
          mp = (5 * doy + 2) div 153;
          d = doy - (153 * mp + 2) div 5 + 1;
          m = (if mp < 10 then mp + 3 else mp - 9);
          y = yoe + era * 400 + (if m \<le> 2 then 1 else 0)
      in (y, m, d))"

definition Year :: "Time \<Rightarrow> int" where "Year tm = fst (civil tm)"
definition Month :: "Time \<Rightarrow> int" where "Month tm = fst (snd (civil tm))"
definition Day :: "Time \<Rightarrow> int" where "Day tm = snd (snd (civil tm))"

subsection \<open>The tokenizer's state\<close>

datatype saxType =
    failsafe
  | tagName
  | attributeName
  | string'
  | character
  | integer
  | long
  | float
  | double
  | decimal
  | boolean
  | date
  | dateTime
  | timeSpan
  | binary
  | null'
  | newLine
  | eof
  | openTag
  | closeTag

record SaxParser =
  Input :: string
  FileName :: string
  cursor :: nat
  t :: saxType
  text' :: string
  addText :: string
  dateTime' :: Time
  timeSpan' :: Duration
  boolean' :: bool

text \<open>
  \<open>cursor\<close> is a Go \<open>int\<close>. It is a natural number here: the code adds constants to it and
  subtracts from it once, in \<open>nextTimeSpan\<close>, the length of a slice that ends at the cursor.

  \<open>SaxParser{Input: input, FileName: name}\<close>: every other field has its zero value.
\<close>

definition newSaxParser :: "string \<Rightarrow> string \<Rightarrow> SaxParser" where
  "newSaxParser input name =
     \<lparr>Input = input, FileName = name, cursor = 0, t = failsafe, text' = [], addText = [],
      dateTime' = zeroTime, timeSpan' = 0, boolean' = False\<rparr>"

definition IsTagName :: "SaxParser \<Rightarrow> bool" where "IsTagName s \<longleftrightarrow> t s = tagName"
definition IsAttributeName :: "SaxParser \<Rightarrow> bool" where "IsAttributeName s \<longleftrightarrow> t s = attributeName"
definition IsString :: "SaxParser \<Rightarrow> bool" where "IsString s \<longleftrightarrow> t s = string'"
definition IsChar :: "SaxParser \<Rightarrow> bool" where "IsChar s \<longleftrightarrow> t s = character"
definition IsInteger :: "SaxParser \<Rightarrow> bool" where "IsInteger s \<longleftrightarrow> t s = integer"
definition IsLong :: "SaxParser \<Rightarrow> bool" where "IsLong s \<longleftrightarrow> t s = long"
definition IsFloat :: "SaxParser \<Rightarrow> bool" where "IsFloat s \<longleftrightarrow> t s = float"
definition IsDouble :: "SaxParser \<Rightarrow> bool" where "IsDouble s \<longleftrightarrow> t s = double"
definition IsDecimal :: "SaxParser \<Rightarrow> bool" where "IsDecimal s \<longleftrightarrow> t s = decimal"
definition IsBool :: "SaxParser \<Rightarrow> bool" where "IsBool s \<longleftrightarrow> t s = boolean"
definition IsDate :: "SaxParser \<Rightarrow> bool" where "IsDate s \<longleftrightarrow> t s = date"
definition IsDateTime :: "SaxParser \<Rightarrow> bool" where "IsDateTime s \<longleftrightarrow> t s = dateTime"
definition IsTimeSpan :: "SaxParser \<Rightarrow> bool" where "IsTimeSpan s \<longleftrightarrow> t s = timeSpan"
definition IsBinary :: "SaxParser \<Rightarrow> bool" where "IsBinary s \<longleftrightarrow> t s = binary"
definition IsNull :: "SaxParser \<Rightarrow> bool" where "IsNull s \<longleftrightarrow> t s = null'"
definition IsEof :: "SaxParser \<Rightarrow> bool" where "IsEof s \<longleftrightarrow> t s = eof"
definition IsNewLine :: "SaxParser \<Rightarrow> bool" where "IsNewLine s \<longleftrightarrow> t s = newLine"
definition IsOpenTag :: "SaxParser \<Rightarrow> bool" where "IsOpenTag s \<longleftrightarrow> t s = openTag"
definition IsCloseTag :: "SaxParser \<Rightarrow> bool" where "IsCloseTag s \<longleftrightarrow> t s = closeTag"

definition Text :: "SaxParser \<Rightarrow> string" where "Text s = text' s"
definition AdditionalText :: "SaxParser \<Rightarrow> string" where "AdditionalText s = addText s"
definition Time_of :: "SaxParser \<Rightarrow> Time" where "Time_of s = dateTime' s"
definition TimeSpan_of :: "SaxParser \<Rightarrow> Duration" where "TimeSpan_of s = timeSpan' s"
definition Bool_of :: "SaxParser \<Rightarrow> bool" where "Bool_of s = boolean' s"

definition peek :: "SaxParser \<Rightarrow> nat \<Rightarrow> char" where
  "peek s offset =
     (if cursor s + offset \<ge> length (Input s) then CHR 0xFF
      else Input s ! (cursor s + offset))"

definition advance :: "SaxParser \<Rightarrow> nat \<Rightarrow> SaxParser" where
  "advance s amount = s\<lparr>cursor := cursor s + amount\<rparr>"

definition eof' :: "SaxParser \<Rightarrow> bool" where
  "eof' s \<longleftrightarrow> cursor s \<ge> length (Input s)"

function eatWhite :: "SaxParser \<Rightarrow> SaxParser" where
  "eatWhite s =
     (if \<not> eof' s \<and> (peek s 0 = SP \<or> peek s 0 = TAB) then eatWhite (advance s 1) else s)"
  by pat_completeness auto
termination
  by (relation "measure (\<lambda>s. length (Input s) - cursor s)") (auto simp: eof'_def advance_def)

declare eatWhite.simps [simp del]

subsection \<open>Locating an error: \<open>getLine\<close> and \<open>NewError\<close>\<close>

text \<open>
  The three loops of \<open>getLine\<close>. The first one reads \<open>s.Input[start]\<close> for every
  \<open>start > 0\<close> it visits, and panics when that index is past the end.
\<close>

fun getLine_start :: "string \<Rightarrow> nat \<Rightarrow> nat outcome" where
  "getLine_start inp 0 = Returns 0"
| "getLine_start inp (Suc n) =
     (if Suc n \<ge> length inp then Panics ''index out of range''
      else if inp ! Suc n \<noteq> LF then getLine_start inp n
      else Returns (Suc n))"

function getLine_end :: "string \<Rightarrow> nat \<Rightarrow> nat" where
  "getLine_end inp e =
     (if e < length inp \<and> inp ! e \<noteq> LF \<and> inp ! e \<noteq> CR then getLine_end inp (Suc e) else e)"
  by pat_completeness auto
termination
  by (relation "measure (\<lambda>(inp, e). length inp - e)") auto

declare getLine_end.simps [simp del]

function getLine_count :: "string \<Rightarrow> nat \<Rightarrow> nat \<Rightarrow> nat \<Rightarrow> nat outcome" where
  "getLine_count inp start i line =
     (if i < start then
        (if i \<ge> length inp then Panics ''index out of range''
         else getLine_count inp start (Suc i) (if inp ! i = LF then line + 1 else line))
      else Returns line)"
  by pat_completeness auto
termination
  by (relation "measure (\<lambda>(inp, start, i, line). start - i)") auto

declare getLine_count.simps [simp del]

definition getLine :: "SaxParser \<Rightarrow> nat \<Rightarrow> (string \<times> int \<times> nat) outcome" where
  "getLine s at =
     (let inp = Input s;
          start0 = (if at \<noteq> 0 \<and> (at \<ge> length inp \<or> inp ! at = LF) then at - 1 else at)
      in bind (getLine_start inp start0) (\<lambda>start1.
         let e = getLine_end inp at
         in if start1 \<ge> length inp then Panics ''index out of range''
            else let start2 = (if inp ! start1 = LF then start1 + 1 else start1)
                 in bind (getLine_count inp start2 0 1) (\<lambda>line.
                    bind (slice inp start2 e) (\<lambda>l.
                    Returns (l, int at - int start2, line)))))"

text \<open>
  The code builds most of its errors by the same four lines: \<open>getLine\<close> at a position, a
  decorator with that line, and one comment under it at the column \<open>getLine\<close> returned.
  \<open>lineError\<close> is those four lines; \<open>NewError\<close> is the method of that name.
\<close>

definition lineError :: "SaxParser \<Rightarrow> nat \<Rightarrow> string \<Rightarrow> 'a outcome" where
  "lineError s at msg =
     (case getLine s at of
        Returns (line, loc, ln) \<Rightarrow> Fails [AddLine line (FileName s) ln, AddBottomComment 0 loc msg]
      | Fails e \<Rightarrow> Fails e
      | Panics m \<Rightarrow> Panics m)"

definition NewError :: "SaxParser \<Rightarrow> nat \<Rightarrow> string \<Rightarrow> 'a outcome" where
  "NewError s offset msg = lineError s (cursor s + offset) msg"

subsection \<open>Facts about the cursor\<close>

lemma peek_eof: "eof' s \<Longrightarrow> peek s 0 = CHR 0xFF"
  by (simp add: peek_def eof'_def)

lemma not_ident_FF: "\<not> isIdentifierContinue (CHR 0xFF)"
  by (simp add: isIdentifierContinue_def less_eq_char_def)

lemma not_digit_FF: "\<not> isDigit (CHR 0xFF)"
  by (simp add: isDigit_def less_eq_char_def)

lemma ident_peek_lt: "isIdentifierContinue (peek s 0) \<Longrightarrow> cursor s < length (Input s)"
  using not_ident_FF by (auto simp: peek_def split: if_splits)

lemma identStart_Continue: "isIdentifierStart ch \<Longrightarrow> isIdentifierContinue ch"
  by (auto simp: isIdentifierStart_def isIdentifierContinue_def)

lemma Input_advance [simp]: "Input (advance s n) = Input s"
  by (simp add: advance_def)

lemma cursor_advance [simp]: "cursor (advance s n) = cursor s + n"
  by (simp add: advance_def)

lemma t_advance [simp]: "t (advance s n) = t s"
  by (simp add: advance_def)

lemma eatWhite_Input [simp]: "Input (eatWhite s) = Input s"
  by (induction s rule: eatWhite.induct) (subst eatWhite.simps, simp)

lemma eatWhite_t [simp]: "t (eatWhite s) = t s"
  by (induction s rule: eatWhite.induct) (subst eatWhite.simps, simp)

lemma eatWhite_cursor: "cursor s \<le> cursor (eatWhite s)"
  by (induction s rule: eatWhite.induct) (subst eatWhite.simps, auto)

lemma eatWhite_eof: "eof' s \<Longrightarrow> eatWhite s = s"
  by (subst eatWhite.simps) simp

lemma eatWhite_stops:
  "eof' (eatWhite s) \<or> (peek (eatWhite s) 0 \<noteq> SP \<and> peek (eatWhite s) 0 \<noteq> TAB)"
  by (induction s rule: eatWhite.induct) (subst (1 2 3) eatWhite.simps, auto)

subsection \<open>Identifiers\<close>

function identifierLoop :: "SaxParser \<Rightarrow> SaxParser" where
  "identifierLoop s =
     (if isIdentifierContinue (peek s 0) then identifierLoop (advance s 1) else s)"
  by pat_completeness auto
termination
  by (relation "measure (\<lambda>s. length (Input s) - cursor s)") (auto dest: ident_peek_lt)

declare identifierLoop.simps [simp del]

definition nextIdentifier :: "SaxParser \<Rightarrow> SaxParser outcome" where
  "nextIdentifier s0 =
     (let s1 = (if t s0 = newLine \<or> t s0 = failsafe then s0\<lparr>t := tagName\<rparr>
                else s0\<lparr>t := attributeName\<rparr>);
          start = cursor s1;
          s2 = identifierLoop s1;
          end = cursor s2
      in bind (slice (Input s2) start end) (\<lambda>word.
         if word = ''true'' \<or> word = ''on'' then
           Returns (s2\<lparr>t := boolean, text' := ''true'', boolean' := True\<rparr>)
         else if word = ''false'' \<or> word = ''off'' then
           Returns (s2\<lparr>t := boolean, text' := ''false'', boolean' := False\<rparr>)
         else if word = ''null'' then
           Returns (s2\<lparr>t := null', text' := ''null''\<rparr>)
         else if peek s2 0 \<noteq> CHR '':'' then
           Returns (s2\<lparr>text' := word, addText := []\<rparr>)
         else
           let s3 = advance (s2\<lparr>addText := word\<rparr>) 1;
               start' = cursor s3;
               s4 = identifierLoop s3;
               end' = cursor s4
           in bind (slice (Input s4) start' end') (\<lambda>name.
              Returns (s4\<lparr>text' := name\<rparr>))))"

subsection \<open>String and binary literals\<close>

text \<open>
  The error of an unterminated literal annotates two lines: the one where the literal
  starts and the one where the cursor stopped.
\<close>

definition unterminatedError :: "SaxParser \<Rightarrow> nat \<Rightarrow> string \<Rightarrow> 'a outcome" where
  "unterminatedError s debugStart msg =
     (case getLine s debugStart of
        Returns (line, loc, ln) \<Rightarrow>
          (case getLine s (cursor s) of
             Returns (line', loc', ln') \<Rightarrow>
               Fails [AddLine line (FileName s) ln,
                      AddBottomComment 0 loc ''Unterminated string'',
                      AddLine line' (FileName s) ln',
                      AddBottomComment 1 loc' msg]
           | Fails e \<Rightarrow> Fails e
           | Panics m \<Rightarrow> Panics m)
      | Fails e \<Rightarrow> Fails e
      | Panics m \<Rightarrow> Panics m)"

text \<open>The loop \<open>for s.peek(0) == ' ' || s.peek(0) == '\t'\<close> after an escaped newline.\<close>

function skipBlanks :: "SaxParser \<Rightarrow> SaxParser" where
  "skipBlanks s = (if peek s 0 = SP \<or> peek s 0 = TAB then skipBlanks (advance s 1) else s)"
  by pat_completeness auto
termination
  by (relation "measure (\<lambda>s. length (Input s) - cursor s)")
     (auto simp: peek_def split: if_splits)

declare skipBlanks.simps [simp del]

lemma skipBlanks_Input [simp]: "Input (skipBlanks s) = Input s"
  by (induction s rule: skipBlanks.induct) (subst skipBlanks.simps, simp)

lemma skipBlanks_cursor: "cursor s \<le> cursor (skipBlanks s)"
  by (induction s rule: skipBlanks.induct) (subst skipBlanks.simps, auto)

lemma skipBlanks_t [simp]: "t (skipBlanks s) = t s"
  by (induction s rule: skipBlanks.induct) (subst skipBlanks.simps, simp)

lemma skipBlanks_measure:
  "\<not> length (Input s) \<le> cursor s \<Longrightarrow>
   length (Input s) - cursor (skipBlanks (advance (advance s (Suc 0)) (Suc 0)))
     < length (Input s) - cursor s"
  using skipBlanks_cursor [of "advance (advance s (Suc 0)) (Suc 0)"] by simp

definition invalidEscape :: string where
  "invalidEscape =
     ''Invalid escape character. Only '' @ [BACKSLASH] @ ''t, '' @ [BACKSLASH] @ ''n, ''
       @ [BACKSLASH] @ ''r, '' @ [BACKSLASH, DQUOTE] @ '', and '' @ [BACKSLASH, BACKSLASH]
       @ '' are allowed.''"

definition expectedDQuote :: string where
  "expectedDQuote =
     ''Expected a terminating ''  @ [CHR 0x27, DQUOTE, CHR 0x27]
       @ '' before hitting end of file/line''"

text \<open>
  The loop of \<open>nextDoubleQuotedString\<close>, with its locals \<open>text\<close> and \<open>start\<close>. Leaving the
  loop (end of input, or a raw newline) is the error after it.
\<close>

function doubleQuotedLoop :: "nat \<Rightarrow> SaxParser \<Rightarrow> string \<Rightarrow> nat \<Rightarrow> SaxParser outcome" where
  "doubleQuotedLoop debugStart s buf start =
     (if \<not> eof' s then
        (if peek s 0 = BACKSLASH then
           bind (slice (Input s) start (cursor s)) (\<lambda>piece.
             let buf1 = buf @ piece;
                 s1 = advance s 1;
                 ch = peek s1 0
             in if ch = CHR ''n'' then
                  doubleQuotedLoop debugStart (advance s1 1) (buf1 @ [LF]) (cursor (advance s1 1))
                else if ch = CHR ''t'' then
                  doubleQuotedLoop debugStart (advance s1 1) (buf1 @ [TAB]) (cursor (advance s1 1))
                else if ch = CHR ''r'' then
                  doubleQuotedLoop debugStart (advance s1 1) (buf1 @ [CR]) (cursor (advance s1 1))
                else if ch = DQUOTE then
                  doubleQuotedLoop debugStart (advance s1 1) (buf1 @ [DQUOTE]) (cursor (advance s1 1))
                else if ch = BACKSLASH then
                  doubleQuotedLoop debugStart (advance s1 1) (buf1 @ [BACKSLASH])
                    (cursor (advance s1 1))
                else if ch = LF then
                  doubleQuotedLoop debugStart (skipBlanks (advance s1 1)) buf1
                    (cursor (skipBlanks (advance s1 1)))
                else lineError s1 (cursor s1) invalidEscape)
         else if peek s 0 = DQUOTE then
           bind (slice (Input s) start (cursor s)) (\<lambda>piece.
             let buf1 = (if buf = [] then piece else buf @ piece)
             in Returns ((advance s 1)\<lparr>text' := buf1\<rparr>))
         else if peek s 0 = LF then unterminatedError s debugStart expectedDQuote
         else doubleQuotedLoop debugStart (advance s 1) buf start)
      else unterminatedError s debugStart expectedDQuote)"
  by pat_completeness auto
termination
  by (relation "measure (\<lambda>(d, s, buf, start). length (Input s) - cursor s)")
     (auto simp: eof'_def skipBlanks_measure)

declare doubleQuotedLoop.simps [simp del]

definition nextDoubleQuotedString :: "SaxParser \<Rightarrow> SaxParser outcome" where
  "nextDoubleQuotedString s0 =
     (let debugStart = cursor s0;
          s1 = (advance s0 1)\<lparr>t := string'\<rparr>
      in doubleQuotedLoop debugStart s1 [] (cursor s1))"

definition expectedBacktick :: string where
  "expectedBacktick = ''Expected a terminating '`' before hitting end of file''"

function backtickLoop :: "nat \<Rightarrow> SaxParser \<Rightarrow> nat \<Rightarrow> SaxParser outcome" where
  "backtickLoop debugStart s start =
     (if \<not> eof' s then
        (if peek s 0 = BACKTICK then
           bind (slice (Input s) start (cursor s)) (\<lambda>buf.
             Returns (advance (s\<lparr>text' := buf\<rparr>) 1))
         else if peek s 0 = CR then
           lineError s (cursor s) (''Backtick strings do not support '' @ [BACKSLASH] @ ''r characters'')
         else backtickLoop debugStart (advance s 1) start)
      else unterminatedError s debugStart expectedBacktick)"
  by pat_completeness auto
termination
  by (relation "measure (\<lambda>(d, s, start). length (Input s) - cursor s)") (auto simp: eof'_def)

declare backtickLoop.simps [simp del]

definition nextBacktickString :: "SaxParser \<Rightarrow> SaxParser outcome" where
  "nextBacktickString s0 =
     (let debugStart = cursor s0;
          s1 = (advance s0 1)\<lparr>t := string'\<rparr>
      in backtickLoop debugStart s1 (cursor s1))"

function binaryLoop :: "nat \<Rightarrow> SaxParser \<Rightarrow> string \<Rightarrow> SaxParser outcome" where
  "binaryLoop debugStart s buf =
     (if \<not> eof' s then
        (if peek s 0 = CHR '']'' then Returns (advance (s\<lparr>text' := buf\<rparr>) 1)
         else if peek s 0 = SP \<or> peek s 0 = TAB \<or> peek s 0 = LF \<or> peek s 0 = CR then
           binaryLoop debugStart (advance s 1) buf
         else binaryLoop debugStart (advance s 1) (buf @ [peek s 0]))
      else unterminatedError s debugStart expectedBacktick)"
  by pat_completeness auto
termination
  by (relation "measure (\<lambda>(d, s, buf). length (Input s) - cursor s)") (auto simp: eof'_def)

declare binaryLoop.simps [simp del]

definition nextBinary :: "SaxParser \<Rightarrow> SaxParser outcome" where
  "nextBinary s0 =
     (let debugStart = cursor s0;
          s1 = (advance s0 1)\<lparr>t := binary\<rparr>
      in binaryLoop debugStart s1 [])"

subsection \<open>Time spans\<close>

text \<open>
  The arithmetic at the end of \<open>nextTimeSpan\<close>, from the five \<open>strconv.Atoi\<close> results to the
  value stored in \<open>s.timeSpan\<close>. \<open>daysn\<close> is a Go \<open>int\<close> (64 bits), so \<open>daysn *= -1\<close> and
  the sum of products wrap around.
\<close>

definition timeSpanOf :: "bool \<Rightarrow> int \<Rightarrow> int \<Rightarrow> int \<Rightarrow> int \<Rightarrow> int \<Rightarrow> Duration" where
  "timeSpanOf isNegative0 daysn0 hoursn minsn secondsn nsecsn =
     (let isNegative = (isNegative0 \<or> daysn0 < 0);
          daysn = (if isNegative then (word_of_int daysn0 :: 64 word) * (- 1)
                   else word_of_int daysn0);
          ts = (Hour * 24 * daysn) +
               (Hour * word_of_int hoursn) +
               (Minute * word_of_int minsn) +
               (Second * word_of_int secondsn) +
               (Millisecond * word_of_int nsecsn)
      in if isNegative then ts * (- 1) else ts)"

definition nextTimeSpan :: "SaxParser \<Rightarrow> string \<Rightarrow> SaxParser outcome" where
  "nextTimeSpan s first =
     (if first = [] then Panics ''index out of range''
      else
        let isNegative = (hd first = CHR ''-'')
        in bind
             (if peek s 0 = CHR ''d'' then
                (if peek s 1 \<noteq> CHR '':'' then
                   lineError s (cursor s) ''Expected a : following the days component of a TimeSpan.''
                 else Returns (advance s 2, first))
              else
                Returns (s\<lparr>cursor := cursor s - length first + (if isNegative then 1 else 0)\<rparr>, []))
             (\<lambda>(s1, days).
                if peek s1 2 \<noteq> CHR '':'' then
                  lineError s1 (cursor s1 + 2)
                    ''Expected a : following the hours component of a TimeSpan.''
                else if peek s1 5 \<noteq> CHR '':'' then
                  lineError s1 (cursor s1 + 5)
                    ''Expected a : following the minutes component of a TimeSpan.''
                else
                  let hasNsecs = (peek s1 8 = CHR ''.'')
                  in bind (slice (Input s1) (cursor s1) (cursor s1 + 2)) (\<lambda>hours.
                     bind (slice (Input s1) (cursor s1 + 3) (cursor s1 + 5)) (\<lambda>minutes.
                     bind (slice (Input s1) (cursor s1 + 6) (cursor s1 + 8)) (\<lambda>seconds.
                     bind
                       (if hasNsecs then
                          (if \<not> isDigit (peek s1 9) \<or> \<not> isDigit (peek s1 10) \<or> \<not> isDigit (peek s1 11)
                           then lineError s1 (cursor s1 + 9)
                                  ''Expected exactly 3 digits for the nsecs portion of a TimeSpan.''
                           else bind (slice (Input s1) (cursor s1 + 9) (cursor s1 + 12)) (\<lambda>nsecs.
                                Returns (advance s1 12, nsecs)))
                        else Returns (advance s1 8, []))
                       (\<lambda>(s2, nsecs).
                          Returns (s2\<lparr>t := timeSpan,
                                      timeSpan' := timeSpanOf isNegative (fst (Atoi days))
                                        (fst (Atoi hours)) (fst (Atoi minutes)) (fst (Atoi seconds))
                                        (fst (Atoi nsecs))\<rparr>)))))))"

text \<open>
  The second half of \<open>nextTimeSpan\<close>, from the hours on, as a function of the sign flag, of
  the state after the day prefix (or after going back) and of the text of the days.
  \<open>nextTimeSpan\<close> is this function after either of its two first steps.
\<close>

definition timeSpanFields :: "bool \<Rightarrow> SaxParser \<Rightarrow> string \<Rightarrow> SaxParser outcome" where
  "timeSpanFields isNegative s1 days =
     (if peek s1 2 \<noteq> CHR '':'' then
        lineError s1 (cursor s1 + 2)
          ''Expected a : following the hours component of a TimeSpan.''
      else if peek s1 5 \<noteq> CHR '':'' then
        lineError s1 (cursor s1 + 5)
          ''Expected a : following the minutes component of a TimeSpan.''
      else
        let hasNsecs = (peek s1 8 = CHR ''.'')
        in bind (slice (Input s1) (cursor s1) (cursor s1 + 2)) (\<lambda>hours.
           bind (slice (Input s1) (cursor s1 + 3) (cursor s1 + 5)) (\<lambda>minutes.
           bind (slice (Input s1) (cursor s1 + 6) (cursor s1 + 8)) (\<lambda>seconds.
           bind
             (if hasNsecs then
                (if \<not> isDigit (peek s1 9) \<or> \<not> isDigit (peek s1 10) \<or> \<not> isDigit (peek s1 11)
                 then lineError s1 (cursor s1 + 9)
                        ''Expected exactly 3 digits for the nsecs portion of a TimeSpan.''
                 else bind (slice (Input s1) (cursor s1 + 9) (cursor s1 + 12)) (\<lambda>nsecs.
                      Returns (advance s1 12, nsecs)))
              else Returns (advance s1 8, []))
             (\<lambda>(s2, nsecs).
                Returns (s2\<lparr>t := timeSpan,
                            timeSpan' := timeSpanOf isNegative (fst (Atoi days))
                              (fst (Atoi hours)) (fst (Atoi minutes)) (fst (Atoi seconds))
                              (fst (Atoi nsecs))\<rparr>))))))"

text \<open>
  The duration literal as the specification describes it: an optional leading \<open>-\<close>, an
  optional day prefix (digits followed by \<open>d:\<close>), two digits each of hours, minutes and
  seconds, and optionally a \<open>.\<close> and exactly three digits of milliseconds. \<open>literalText\<close>
  is the text of the literal and \<open>literalMagnitude\<close> the sum of its fields in nanoseconds,
  an unbounded integer.
\<close>

record durationLiteral =
  litNegative :: bool
  litDays :: "string option"
  litHours :: string
  litMinutes :: string
  litSeconds :: string
  litMillis :: "string option"

definition wellFormedLiteral :: "durationLiteral \<Rightarrow> bool" where
  "wellFormedLiteral l \<longleftrightarrow>
     (case litDays l of None \<Rightarrow> True | Some ds \<Rightarrow> ds \<noteq> [] \<and> list_all isDigit ds) \<and>
     length (litHours l) = 2 \<and> list_all isDigit (litHours l) \<and>
     length (litMinutes l) = 2 \<and> list_all isDigit (litMinutes l) \<and>
     length (litSeconds l) = 2 \<and> list_all isDigit (litSeconds l) \<and>
     (case litMillis l of None \<Rightarrow> True | Some fs \<Rightarrow> length fs = 3 \<and> list_all isDigit fs)"

definition literalText :: "durationLiteral \<Rightarrow> string" where
  "literalText l =
     (if litNegative l then ''-'' else []) @
     (case litDays l of None \<Rightarrow> [] | Some ds \<Rightarrow> ds @ ''d:'') @
     litHours l @ '':'' @ litMinutes l @ '':'' @ litSeconds l @
     (case litMillis l of None \<Rightarrow> [] | Some fs \<Rightarrow> ''.'' @ fs)"

definition literalMagnitude :: "durationLiteral \<Rightarrow> int" where
  "literalMagnitude l =
     (case litDays l of None \<Rightarrow> 0 | Some ds \<Rightarrow> digitsVal 0 ds) * 86400000000000 +
     digitsVal 0 (litHours l) * 3600000000000 +
     digitsVal 0 (litMinutes l) * 60000000000 +
     digitsVal 0 (litSeconds l) * 1000000000 +
     (case litMillis l of None \<Rightarrow> 0 | Some fs \<Rightarrow> digitsVal 0 fs) * 1000000"

subsection \<open>Dates and date-times\<close>

text \<open>The comments under the line of a malformed date or time: one for each bad field.\<close>

definition invalidNumbers :: "int \<Rightarrow> (bool \<times> int) list \<Rightarrow> decoratorCall list" where
  "invalidNumbers loc flds =
     map (\<lambda>(bad, off). AddBottomComment 0 (loc + off) ''Invalid number'')
       (filter (\<lambda>(bad, off). bad) flds)"

definition nextDate :: "SaxParser \<Rightarrow> SaxParser outcome" where
  "nextDate s =
     (if cursor s + 10 > length (Input s) then
        lineError s (cursor s)
          ''Found what looks like a Date, but there's not enough characters to make a Date.''
      else if peek s 7 \<noteq> CHR ''/'' then
        lineError s (cursor s + 7) (''Expected a '/'' @ [CHR 0x27])
      else
        bind (slice (Input s) (cursor s) (cursor s + 4)) (\<lambda>ys.
        bind (slice (Input s) (cursor s + 5) (cursor s + 7)) (\<lambda>ms.
        bind (slice (Input s) (cursor s + 8) (cursor s + 10)) (\<lambda>ds.
          let (year, yerr) = Atoi ys;
              (month, merr) = Atoi ms;
              (day, derr) = Atoi ds
          in if yerr \<or> merr \<or> derr then
               bind (getLine s (cursor s)) (\<lambda>(line, loc, ln).
                 Fails (AddLine line (FileName s) ln
                        # invalidNumbers loc [(yerr, 0), (merr, 5), (derr, 8)]))
             else
               Returns (advance (s\<lparr>dateTime' := Date year month day 0 0 0 0, t := date\<rparr>) 10)))))"

definition nextDateTime :: "SaxParser \<Rightarrow> SaxParser outcome" where
  "nextDateTime s0 =
     bind (nextDate s0) (\<lambda>s1.
       let s = eatWhite s1
       in if cursor s + 8 > length (Input s) then
            lineError s (cursor s)
              ''Found what looks like a DateTime, but there's not enough characters to make a DateTime.''
          else if peek s 5 \<noteq> CHR '':'' then
            lineError s (cursor s + 5) ''Expected a ':'.''
          else
            bind (slice (Input s) (cursor s) (cursor s + 2)) (\<lambda>hs.
            bind (slice (Input s) (cursor s + 3) (cursor s + 5)) (\<lambda>ms.
            bind (slice (Input s) (cursor s + 6) (cursor s + 8)) (\<lambda>ss.
              let (hours, herr) = Atoi hs;
                  (minutes, merr) = Atoi ms;
                  (seconds, serr) = Atoi ss
              in if herr \<or> merr \<or> serr then
                   bind (getLine s (cursor s)) (\<lambda>(line, loc, ln).
                     Fails (AddLine line (FileName s) ln
                            # invalidNumbers loc [(herr, 0), (merr, 3), (serr, 6)]))
                 else
                   let s2 = advance s 8
                   in bind
                        (if peek s2 0 = CHR ''.'' then
                           (if cursor s2 + 4 > length (Input s2) then
                              lineError s2 (cursor s2)
                                ''Found what looks like the fractional part of a DateTime, but there's not enough characters.''
                            else
                              bind (slice (Input s2) (cursor s2 + 1) (cursor s2 + 4)) (\<lambda>fs.
                                let (frac, ferr) = Atoi fs;
                                    s3 = advance s2 4
                                in if ferr then lineError s3 (cursor s3 - 3) ''Invalid number''
                                   else Returns (s3, frac)))
                         else Returns (s2, 0))
                        (\<lambda>(s4, frac).
                           Returns (s4\<lparr>t := dateTime,
                                       dateTime' := Date (Year (dateTime' s4)) (Month (dateTime' s4))
                                         (Day (dateTime' s4)) hours minutes seconds frac\<rparr>))))))"

subsection \<open>Numbers\<close>

function numericLoop :: "SaxParser \<Rightarrow> bool \<Rightarrow> (SaxParser \<times> bool) outcome" where
  "numericLoop s foundDot =
     (if \<not> eof' s then
        (if peek s 0 = CHR ''.'' then
           (if foundDot then
              lineError s (cursor s) ''There are multiple decimal places in this number.''
            else numericLoop (advance s 1) True)
         else if \<not> isDigit (peek s 0) then Returns (s, foundDot)
         else numericLoop (advance s 1) foundDot)
      else Returns (s, foundDot))"
  by pat_completeness auto
termination
  by (relation "measure (\<lambda>(s, foundDot). length (Input s) - cursor s)") (auto simp: eof'_def)

declare numericLoop.simps [simp del]

text \<open>
  The kind of a number: \<open>s.t = integer\<close>, then the chain of \<open>if\<close>s on the suffix
  \<open>L\<close>, \<open>F\<close>, \<open>D\<close> and on \<open>foundDot\<close>.
\<close>

definition numericSuffix :: "SaxParser \<Rightarrow> bool \<Rightarrow> SaxParser" where
  "numericSuffix s2 foundDot =
     (let s3 = s2\<lparr>t := integer\<rparr>
      in if peek s3 0 = CHR ''L'' then advance (s3\<lparr>t := long\<rparr>) 1
         else if peek s3 0 = CHR ''F'' then advance (s3\<lparr>t := float\<rparr>) 1
         else if peek s3 0 = CHR ''D'' then advance (s3\<lparr>t := double\<rparr>) 1
         else if foundDot then s3\<lparr>t := double\<rparr>
         else s3)"

definition nextNumeric :: "SaxParser \<Rightarrow> SaxParser outcome" where
  "nextNumeric s0 =
     (if peek s0 4 = CHR ''/'' then
        (if peek s0 13 = CHR '':'' \<and> isDigit (peek s0 11) \<and> isDigit (peek s0 12) then nextDateTime s0
         else nextDate s0)
      else
        let start = cursor s0;
            isNegative = (peek s0 0 = CHR ''-'');
            s1 = (if isNegative then advance s0 1 else s0)
        in bind (numericLoop s1 False) (\<lambda>(s2, foundDot).
           bind (slice (Input s2) start (cursor s2)) (\<lambda>num.
             if peek s2 0 = CHR ''d'' \<or> peek s2 0 = CHR '':'' then nextTimeSpan s2 num
             else
               let s4 = numericSuffix s2 foundDot
               in if \<not> eof' s4 \<and> peek s4 0 \<noteq> SP \<and> peek s4 0 \<noteq> LF \<and> peek s4 0 \<noteq> CR then
                    lineError s4 (cursor s4) ''Expected whitespace or End of line/file after number.''
                  else Returns (s4\<lparr>text' := num\<rparr>))))"

subsection \<open>\<open>Next\<close>\<close>

text \<open>The loop that skips a comment to the end of its line.\<close>

function skipComment :: "SaxParser \<Rightarrow> SaxParser" where
  "skipComment s = (if \<not> eof' s \<and> peek s 0 \<noteq> LF then skipComment (advance s 1) else s)"
  by pat_completeness auto
termination
  by (relation "measure (\<lambda>s. length (Input s) - cursor s)") (auto simp: eof'_def)

declare skipComment.simps [simp del]

lemma skipComment_Input [simp]: "Input (skipComment s) = Input s"
  by (induction s rule: skipComment.induct) (subst skipComment.simps, simp)

lemma skipComment_t [simp]: "t (skipComment s) = t s"
  by (induction s rule: skipComment.induct) (subst skipComment.simps, simp)

lemma skipComment_cursor: "cursor s \<le> cursor (skipComment s)"
  by (induction s rule: skipComment.induct) (subst skipComment.simps, auto)

lemma skipComment_advances:
  "\<not> eof' s \<Longrightarrow> peek s 0 \<noteq> LF \<Longrightarrow> cursor s < cursor (skipComment s)"
  using skipComment_cursor [of "advance s 1"] by (subst skipComment.simps) simp

definition strayCR :: "SaxParser \<Rightarrow> 'a outcome" where
  "strayCR s =
     (case getLine s (cursor s) of
        Returns (line, loc, ln) \<Rightarrow>
          Fails [AddLine (line @ '' '') (FileName s) ln,
                 AddBottomComment 0 (int (length line))
                   (''Stray '' @ [BACKSLASH] @ ''r without a '' @ [BACKSLASH] @ ''n following it.'')]
      | Fails e \<Rightarrow> Fails e
      | Panics m \<Rightarrow> Panics m)"

function Next :: "SaxParser \<Rightarrow> SaxParser outcome" where
  "Next s0 =
     (let s = eatWhite s0
      in if eof' s then Returns (s\<lparr>t := eof\<rparr>)
         else if (peek s 0 = CHR ''/'' \<and> peek s 1 = CHR ''/'') \<or>
                 (peek s 0 = CHR ''-'' \<and> peek s 1 = CHR ''-'') \<or>
                 peek s 0 = CHR ''#'' then
           Next (skipComment s)
         else if peek s 0 = LF then Returns ((advance s 1)\<lparr>t := newLine\<rparr>)
         else if peek s 0 = CR then
           (if peek s 1 \<noteq> LF then strayCR s
            else Returns ((advance s 2)\<lparr>t := newLine\<rparr>))
         else if peek s 0 = BACKSLASH \<and> peek s 1 = LF then Next (advance s 2)
         else
           let ch = peek s 0
           in if isIdentifierStart ch then
                bind (nextIdentifier s) (\<lambda>s1.
                  if t s1 = attributeName then
                    (if peek s1 0 \<noteq> CHR ''='' then
                       lineError s1 (cursor s1) ''Expected '=' following attribute name''
                     else Returns (advance s1 1))
                  else Returns s1)
              else if ch = CHR ''{'' then Returns (advance (s\<lparr>t := openTag, text' := ''{''\<rparr>) 1)
              else if ch = CHR ''}'' then Returns (advance (s\<lparr>t := closeTag, text' := ''}''\<rparr>) 1)
              else if t s = newLine \<or> t s = failsafe then
                Returns (s\<lparr>t := tagName, text' := ''content''\<rparr>)
              else if ch = DQUOTE then nextDoubleQuotedString s
              else if ch = BACKTICK then nextBacktickString s
              else if ch = CHR ''['' then nextBinary s
              else if isDigit ch \<or> ch = CHR ''-'' then nextNumeric s
              else lineError s (cursor s) ''Unexpected character.'')"
  by pat_completeness auto
termination
proof (relation "measure (\<lambda>s. length (Input s) - cursor s)")
  show "wf (measure (\<lambda>s. length (Input s) - cursor s))" by simp
next
  fix s0 s
  assume s: "s = eatWhite s0" and ne: "\<not> eof' s"
  have le: "cursor s0 \<le> cursor s" unfolding s by (rule eatWhite_cursor)
  have inp: "Input s = Input s0" unfolding s by simp
  {
    assume "peek s 0 = CHR ''/'' \<and> peek s 1 = CHR ''/'' \<or>
            peek s 0 = CHR ''-'' \<and> peek s 1 = CHR ''-'' \<or> peek s 0 = CHR ''#''"
    then have "peek s 0 \<noteq> LF" by auto
    with ne have "cursor s < cursor (skipComment s)" by (rule skipComment_advances)
    with le ne inp
    show "(skipComment s, s0) \<in> measure (\<lambda>s. length (Input s) - cursor s)"
      by (simp add: eof'_def)
  }
  {
    from le ne inp
    show "(advance s 2, s0) \<in> measure (\<lambda>s. length (Input s) - cursor s)"
      by (simp add: eof'_def)
  }
qed

declare Next.simps [simp del]

subsection \<open>Every token moves the cursor forward\<close>

lemma identifierLoop_Input [simp]: "Input (identifierLoop s) = Input s"
  by (induction s rule: identifierLoop.induct) (subst identifierLoop.simps, simp)

lemma identifierLoop_t [simp]: "t (identifierLoop s) = t s"
  by (induction s rule: identifierLoop.induct) (subst identifierLoop.simps, simp)

lemma identifierLoop_cursor: "cursor s \<le> cursor (identifierLoop s)"
  by (induction s rule: identifierLoop.induct) (subst identifierLoop.simps, auto)

lemma identifierLoop_advances:
  "isIdentifierContinue (peek s 0) \<Longrightarrow> cursor s < cursor (identifierLoop s)"
  using identifierLoop_cursor [of "advance s 1"] by (subst identifierLoop.simps) simp

lemma peek_upd [simp]:
  "peek (s\<lparr>t := a\<rparr>) n = peek s n"
  "peek (s\<lparr>text' := b\<rparr>) n = peek s n"
  "peek (s\<lparr>addText := b\<rparr>) n = peek s n"
  "peek (s\<lparr>boolean' := c\<rparr>) n = peek s n"
  "peek (s\<lparr>dateTime' := d\<rparr>) n = peek s n"
  "peek (s\<lparr>timeSpan' := e\<rparr>) n = peek s n"
  by (simp_all add: peek_def)

lemma eof'_upd [simp]:
  "eof' (s\<lparr>t := a\<rparr>) = eof' s"
  "eof' (s\<lparr>text' := b\<rparr>) = eof' s"
  "eof' (s\<lparr>addText := b\<rparr>) = eof' s"
  by (simp_all add: eof'_def)

lemma bind_Returns_iff:
  "bind m f = Returns y \<longleftrightarrow> (\<exists>x. m = Returns x \<and> f x = Returns y)"
  by (cases m) auto

lemma lineError_not_Returns [simp]: "lineError s at msg \<noteq> Returns x"
  by (auto simp: lineError_def split: outcome.splits)

lemma unterminatedError_not_Returns [simp]: "unterminatedError s d msg \<noteq> Returns x"
  by (auto simp: unterminatedError_def split: outcome.splits)

lemma strayCR_not_Returns [simp]: "strayCR s \<noteq> Returns x"
  by (auto simp: strayCR_def split: outcome.splits)

lemma nextIdentifier_shape:
  assumes r: "nextIdentifier s = Returns s'"
  shows "\<exists>s2 x. (s2 = identifierLoop (s\<lparr>t := tagName\<rparr>) \<or> s2 = identifierLoop (s\<lparr>t := attributeName\<rparr>)) \<and>
     (s' = s2\<lparr>t := boolean, text' := ''true'', boolean' := True\<rparr> \<or>
      s' = s2\<lparr>t := boolean, text' := ''false'', boolean' := False\<rparr> \<or>
      s' = s2\<lparr>t := null', text' := ''null''\<rparr> \<or>
      s' = s2\<lparr>text' := x, addText := []\<rparr> \<or>
      (\<exists>y. s' = (identifierLoop (advance (s2\<lparr>addText := x\<rparr>) 1))\<lparr>text' := y\<rparr>))"
proof (cases "t s = newLine \<or> t s = failsafe")
  case True
  with r show ?thesis
    apply (simp only: nextIdentifier_def Let_def if_True bind_Returns_iff)
    apply (elim exE conjE)
    apply (rule exI [of _ "identifierLoop (s\<lparr>t := tagName\<rparr>)"])
    apply (simp split: if_splits add: bind_Returns_iff)
    apply blast+
    done
next
  case False
  with r show ?thesis
    apply (simp only: nextIdentifier_def Let_def if_False bind_Returns_iff)
    apply (elim exE conjE)
    apply (rule exI [of _ "identifierLoop (s\<lparr>t := attributeName\<rparr>)"])
    apply (simp split: if_splits add: bind_Returns_iff)
    apply blast+
    done
qed


lemma nextIdentifier_progress:
  assumes r: "nextIdentifier s = Returns s'" and st: "isIdentifierStart (peek s 0)"
  shows "Input s' = Input s \<and> cursor s < cursor s' \<and>
         t s' \<in> {tagName, attributeName, boolean, null'}"
proof -
  from nextIdentifier_shape [OF r] obtain s2 x where
    s2: "s2 = identifierLoop (s\<lparr>t := tagName\<rparr>) \<or> s2 = identifierLoop (s\<lparr>t := attributeName\<rparr>)"
    and s': "s' = s2\<lparr>t := boolean, text' := ''true'', boolean' := True\<rparr> \<or>
      s' = s2\<lparr>t := boolean, text' := ''false'', boolean' := False\<rparr> \<or>
      s' = s2\<lparr>t := null', text' := ''null''\<rparr> \<or>
      s' = s2\<lparr>text' := x, addText := []\<rparr> \<or>
      (\<exists>y. s' = (identifierLoop (advance (s2\<lparr>addText := x\<rparr>) 1))\<lparr>text' := y\<rparr>)"
    by blast
  have cont: "isIdentifierContinue (peek (s\<lparr>t := a\<rparr>) 0)" for a
    using st by (simp add: identStart_Continue)
  have adv: "cursor s < cursor s2"
    using s2 identifierLoop_advances [OF cont [of tagName]]
      identifierLoop_advances [OF cont [of attributeName]] by auto
  have i2: "Input s2 = Input s" and t2: "t s2 \<in> {tagName, attributeName}"
    using s2 by auto
  have le: "cursor s2 < cursor (identifierLoop (advance (s2\<lparr>addText := x\<rparr>) 1))"
    using identifierLoop_cursor [of "advance (s2\<lparr>addText := x\<rparr>) 1"] by simp
  from s' adv i2 t2 le show ?thesis
    by (elim disjE exE) auto
qed


lemma measure_advance:
  "\<not> eof' s \<Longrightarrow> cursor s + k \<le> cursor s2 \<Longrightarrow> 0 < k \<Longrightarrow> Input s2 = Input s \<Longrightarrow>
   length (Input s2) - cursor s2 < length (Input s) - cursor s"
  by (simp add: eof'_def)

lemma doubleQuotedLoop_progress:
  "doubleQuotedLoop d s buf start = Returns s' \<Longrightarrow>
   Input s' = Input s \<and> cursor s < cursor s' \<and> t s' = t s"
proof (induction "length (Input s) - cursor s" arbitrary: s buf start rule: less_induct)
  case less
  have IH1: "Input s' = Input s \<and> cursor s < cursor s' \<and> t s' = t s"
    if "doubleQuotedLoop d (advance (advance s (Suc 0)) (Suc 0)) b st = Returns s'" "\<not> eof' s" for b st
    using less.hyps [OF measure_advance [OF that(2), of 2] that(1)] by simp
  have IH2: "Input s' = Input s \<and> cursor s < cursor s' \<and> t s' = t s"
    if "doubleQuotedLoop d (skipBlanks (advance (advance s (Suc 0)) (Suc 0))) b st = Returns s'"
       "\<not> eof' s" for b st
    using less.hyps [OF measure_advance [OF that(2), of 2] that(1)]
      skipBlanks_cursor [of "advance (advance s (Suc 0)) (Suc 0)"]
    by simp
  have IH3: "Input s' = Input s \<and> cursor s < cursor s' \<and> t s' = t s"
    if "doubleQuotedLoop d (advance s (Suc 0)) b st = Returns s'" "\<not> eof' s" for b st
    using less.hyps [OF measure_advance [OF that(2), of 1] that(1)] by simp
  show ?case
    using less.prems
    by (subst (asm) doubleQuotedLoop.simps)
       (auto simp: bind_Returns_iff Let_def split: if_splits dest: IH1 IH2 IH3)
qed

lemma backtickLoop_progress:
  "backtickLoop d s start = Returns s' \<Longrightarrow>
   Input s' = Input s \<and> cursor s < cursor s' \<and> t s' = t s"
proof (induction "length (Input s) - cursor s" arbitrary: s start rule: less_induct)
  case less
  have IH: "Input s' = Input s \<and> cursor s < cursor s' \<and> t s' = t s"
    if "backtickLoop d (advance s (Suc 0)) st = Returns s'" "\<not> eof' s" for st
    using less.hyps [OF measure_advance [OF that(2), of 1] that(1)] by simp
  show ?case
    using less.prems
    by (subst (asm) backtickLoop.simps)
       (auto simp: bind_Returns_iff Let_def split: if_splits dest: IH)
qed

lemma binaryLoop_progress:
  "binaryLoop d s buf = Returns s' \<Longrightarrow>
   Input s' = Input s \<and> cursor s < cursor s' \<and> t s' = t s"
proof (induction "length (Input s) - cursor s" arbitrary: s buf rule: less_induct)
  case less
  have IH: "Input s' = Input s \<and> cursor s < cursor s' \<and> t s' = t s"
    if "binaryLoop d (advance s (Suc 0)) b = Returns s'" "\<not> eof' s" for b
    using less.hyps [OF measure_advance [OF that(2), of 1] that(1)] by simp
  show ?case
    using less.prems
    by (subst (asm) binaryLoop.simps)
       (auto simp: bind_Returns_iff Let_def split: if_splits dest: IH)
qed

lemma numericLoop_progress:
  "numericLoop s fd = Returns (s', fd') \<Longrightarrow>
   Input s' = Input s \<and> cursor s \<le> cursor s' \<and> cursor s' \<le> max (cursor s) (length (Input s)) \<and>
   t s' = t s \<and> (\<not> eof' s \<and> isDigit (peek s 0) \<longrightarrow> cursor s < cursor s')"
proof (induction "length (Input s) - cursor s" arbitrary: s fd rule: less_induct)
  case less
  have IH: "Input s' = Input s \<and> cursor s < cursor s' \<and> cursor s' \<le> length (Input s) \<and> t s' = t s"
    if "numericLoop (advance s (Suc 0)) f = Returns (s', fd')" "\<not> eof' s" for f
    using less.hyps [OF measure_advance [OF that(2), of 1] that(1)] that(2)
    by (auto simp: eof'_def)
  show ?case
    using less.prems
    by (subst (asm) numericLoop.simps)
       (auto simp: bind_Returns_iff Let_def eof'_def split: if_splits dest: IH)
qed

lemma nextDoubleQuotedString_progress:
  "nextDoubleQuotedString s = Returns s' \<Longrightarrow>
   Input s' = Input s \<and> cursor s < cursor s' \<and> t s' = string'"
  unfolding nextDoubleQuotedString_def Let_def
  by (drule doubleQuotedLoop_progress) simp

lemma nextBacktickString_progress:
  "nextBacktickString s = Returns s' \<Longrightarrow>
   Input s' = Input s \<and> cursor s < cursor s' \<and> t s' = string'"
  unfolding nextBacktickString_def Let_def
  by (drule backtickLoop_progress) simp

lemma nextBinary_progress:
  "nextBinary s = Returns s' \<Longrightarrow>
   Input s' = Input s \<and> cursor s < cursor s' \<and> t s' = binary"
  unfolding nextBinary_def Let_def
  by (drule binaryLoop_progress) simp

lemma slice_Returns_iff:
  "slice s lo hi = Returns x \<longleftrightarrow> lo \<le> hi \<and> hi \<le> length s \<and> x = take (hi - lo) (drop lo s)"
  by (auto simp: slice_def)

lemma nextTimeSpan_progress:
  assumes "nextTimeSpan s first = Returns s'"
  shows "Input s' = Input s \<and> cursor s - length first + 8 \<le> cursor s' \<and> t s' = timeSpan"
  using assms
  unfolding nextTimeSpan_def Let_def
  by (auto simp: bind_Returns_iff split_beta split: if_splits)

lemma nextDate_progress:
  "nextDate s = Returns s' \<Longrightarrow>
   Input s' = Input s \<and> cursor s' = cursor s + 10 \<and> t s' = date"
  unfolding nextDate_def Let_def
  by (auto simp: bind_Returns_iff split_beta split: if_splits)

lemma eatWhite_after_date:
  "cursor x = cursor s + 10 \<Longrightarrow> cursor s < cursor (eatWhite x) + k"
  "cursor x = cursor s + 10 \<Longrightarrow> cursor s < k + cursor (eatWhite x)"
  using eatWhite_cursor [of x] by simp_all

lemma nextDateTime_progress:
  "nextDateTime s = Returns s' \<Longrightarrow>
   Input s' = Input s \<and> cursor s < cursor s' \<and> t s' = dateTime"
  unfolding nextDateTime_def Let_def
  by (auto simp: bind_Returns_iff split_beta eatWhite_after_date split: if_splits
           dest!: nextDate_progress)

lemma numericSuffix_progress:
  "Input (numericSuffix s fd) = Input s \<and> cursor s \<le> cursor (numericSuffix s fd) \<and>
   t (numericSuffix s fd) \<in> {integer, long, float, double}"
  by (simp add: numericSuffix_def Let_def)

lemma nextNumeric_progress:
  assumes r: "nextNumeric s = Returns s'" and ne: "\<not> eof' s"
    and ch: "isDigit (peek s 0) \<or> peek s 0 = CHR ''-''"
  shows "Input s' = Input s \<and> cursor s < cursor s' \<and>
         t s' \<in> {integer, long, float, double, date, dateTime, timeSpan}"
proof (cases "peek s 4 = CHR ''/''")
  case True
  with r show ?thesis
    unfolding nextNumeric_def
    by (auto split: if_splits dest!: nextDate_progress nextDateTime_progress)
next
  case False
  define s1 where "s1 = (if peek s 0 = CHR ''-'' then advance s 1 else s)"
  from r False have "\<exists>s2 fd num. numericLoop s1 False = Returns (s2, fd) \<and>
      slice (Input s2) (cursor s) (cursor s2) = Returns num \<and>
      ((peek s2 0 = CHR ''d'' \<or> peek s2 0 = CHR '':'') \<and> nextTimeSpan s2 num = Returns s' \<or>
       Input s' = Input s2 \<and> cursor s2 \<le> cursor s' \<and> t s' \<in> {integer, long, float, double})"
    using numericSuffix_progress
    unfolding nextNumeric_def Let_def s1_def
    by (auto simp: bind_Returns_iff split_beta split: if_splits)
  then obtain s2 fd num where
    nl: "numericLoop s1 False = Returns (s2, fd)" and
    sl: "slice (Input s2) (cursor s) (cursor s2) = Returns num" and
    rest: "(peek s2 0 = CHR ''d'' \<or> peek s2 0 = CHR '':'') \<and> nextTimeSpan s2 num = Returns s' \<or>
       Input s' = Input s2 \<and> cursor s2 \<le> cursor s' \<and> t s' \<in> {integer, long, float, double}"
    by blast
  from numericLoop_progress [OF nl]
  have i2: "Input s2 = Input s1" and c2: "cursor s1 \<le> cursor s2"
    and adv: "\<not> eof' s1 \<and> isDigit (peek s1 0) \<longrightarrow> cursor s1 < cursor s2"
    by simp_all
  have i1: "Input s1 = Input s" by (simp add: s1_def)
  have lt: "cursor s < cursor s2"
  proof (cases "peek s 0 = CHR ''-''")
    case True
    then show ?thesis using c2 by (simp add: s1_def)
  next
    case False
    with ch ne adv show ?thesis by (simp add: s1_def)
  qed
  from sl have len: "length num = cursor s2 - cursor s" and b: "cursor s2 \<le> length (Input s2)"
    by (auto simp: slice_Returns_iff)
  from rest show ?thesis
  proof
    assume "(peek s2 0 = CHR ''d'' \<or> peek s2 0 = CHR '':'') \<and> nextTimeSpan s2 num = Returns s'"
    then have "nextTimeSpan s2 num = Returns s'" by simp
    from nextTimeSpan_progress [OF this] len lt i1 i2 show ?thesis by auto
  next
    assume "Input s' = Input s2 \<and> cursor s2 \<le> cursor s' \<and> t s' \<in> {integer, long, float, double}"
    with lt i1 i2 show ?thesis by auto
  qed
qed

text \<open>
  What one successful call of \<open>Next\<close> does to the cursor: it never moves it back; it ends at
  the end of the input with the token \<open>eof\<close>, or it started before the end and either moved
  the cursor forward or produced the tag name \<open>content\<close> from the state where a tag name is
  expected.
\<close>

definition progress :: "SaxParser \<Rightarrow> SaxParser \<Rightarrow> bool" where
  "progress s s' \<longleftrightarrow>
     Input s' = Input s \<and> cursor s \<le> cursor s' \<and>
     (if t s' = eof then eof' s'
      else cursor s < length (Input s) \<and>
           (cursor s < cursor s' \<or> (t s' = tagName \<and> (t s = newLine \<or> t s = failsafe))))"

lemma progress_lexer:
  assumes "Input s' = Input s" "cursor s < cursor s'" "t s' \<noteq> eof"
    and "\<not> eof' s" "cursor s0 \<le> cursor s" "Input s = Input s0"
  shows "progress s0 s'"
  using assms by (simp add: progress_def eof'_def)

lemma Next_progress: "Next s0 = Returns s' \<Longrightarrow> progress s0 s'"
proof (induction s0 rule: Next.induct)
  case (1 s0)
  define s where "s = eatWhite s0"
  have le: "cursor s0 \<le> cursor s" and inp: "Input s = Input s0" and ts: "t s = t s0"
    by (simp_all add: s_def eatWhite_cursor)
  note IH1 = "1.IH"(1) [OF s_def]
  note IH2 = "1.IH"(2) [OF s_def]
  note r = "1.prems" [unfolded Next.simps [of s0] Let_def, folded s_def]
  show ?case
  proof (cases "eof' s")
    case True
    with r have "s' = s\<lparr>t := eof\<rparr>" by simp
    with True le inp show ?thesis by (simp add: progress_def)
  next
    case ne: False
    show ?thesis
    proof (cases "(peek s 0 = CHR ''/'' \<and> peek s 1 = CHR ''/'') \<or>
                 (peek s 0 = CHR ''-'' \<and> peek s 1 = CHR ''-'') \<or> peek s 0 = CHR ''#''")
      case True
      with ne r have r': "Next (skipComment s) = Returns s'" by simp
      from True have "peek s 0 \<noteq> LF" by auto
      from skipComment_advances [OF ne this] have adv: "cursor s < cursor (skipComment s)" .
      from IH1 [OF ne True r'] adv le inp ne show ?thesis
        by (auto simp: progress_def eof'_def split: if_splits)
    next
      case nc: False
      show ?thesis
      proof (cases "peek s 0 = LF \<or> peek s 0 = CR")
        case True
        with ne nc r have "s' = (advance s 1)\<lparr>t := newLine\<rparr> \<or> s' = (advance s 2)\<lparr>t := newLine\<rparr>"
          by (auto split: if_splits)
        with ne le inp show ?thesis
          by (auto simp: progress_def eof'_def)
      next
        case nn: False
        show ?thesis
        proof (cases "peek s 0 = BACKSLASH \<and> peek s 1 = LF")
          case True
          with ne nc nn r have r': "Next (advance s 2) = Returns s'" by simp
          from nn have n1: "peek s 0 \<noteq> LF" and n2: "peek s 0 \<noteq> CR" by simp_all
          from IH2 [OF ne nc n1 n2 True r'] le inp ne show ?thesis
            by (auto simp: progress_def eof'_def split: if_splits)
        next
          case nb: False
          from nn have n1: "peek s 0 \<noteq> LF" and n2: "peek s 0 \<noteq> CR" by simp_all
          note r' = r [unfolded if_not_P [OF ne] if_not_P [OF nc] if_not_P [OF n1]
                         if_not_P [OF n2] if_not_P [OF nb]]
          show ?thesis
          proof (cases "isIdentifierStart (peek s 0)")
            case True
            with r' obtain s1 where id: "nextIdentifier s = Returns s1"
              and s': "s' = s1 \<or> s' = advance s1 1"
              by (auto simp: bind_Returns_iff split: if_splits)
            from nextIdentifier_progress [OF id True] s'
            have "Input s' = Input s" "cursor s < cursor s'" "t s' \<noteq> eof" by auto
            then show ?thesis using ne le inp by (rule progress_lexer)
          next
            case ni: False
            show ?thesis
            proof (cases "peek s 0 = CHR ''{'' \<or> peek s 0 = CHR ''}''")
              case True
              with ni r' have "Input s' = Input s" "cursor s < cursor s'" "t s' \<noteq> eof"
                by (auto split: if_splits)
              then show ?thesis using ne le inp by (rule progress_lexer)
            next
              case nbr: False
              show ?thesis
              proof (cases "t s = newLine \<or> t s = failsafe")
                case True
                with ni nbr r' have "s' = s\<lparr>t := tagName, text' := ''content''\<rparr>"
                  by (auto split: if_splits)
                with True ne le inp ts show ?thesis
                  by (auto simp: progress_def eof'_def)
              next
                case False
                with ni nbr r' have
                  "nextDoubleQuotedString s = Returns s' \<or> nextBacktickString s = Returns s' \<or>
                   nextBinary s = Returns s' \<or>
                   ((isDigit (peek s 0) \<or> peek s 0 = CHR ''-'') \<and> nextNumeric s = Returns s')"
                  by (auto split: if_splits)
                then have "Input s' = Input s \<and> cursor s < cursor s' \<and> t s' \<noteq> eof"
                  using nextDoubleQuotedString_progress [of s s'] nextBacktickString_progress [of s s']
                    nextBinary_progress [of s s'] nextNumeric_progress [of s s', OF _ ne]
                  by auto
                then have "Input s' = Input s" "cursor s < cursor s'" "t s' \<noteq> eof" by simp_all
                then show ?thesis using ne le inp by (rule progress_lexer)
              qed
            qed
          qed
        qed
      qed
    qed
  qed
qed

text \<open>
  The measure of the tree builder's loop: twice the input that is left, plus one while the
  tokenizer expects a tag name (the only state from which \<open>Next\<close> returns a token without
  consuming input).
\<close>

definition parseMeasure :: "SaxParser \<Rightarrow> nat" where
  "parseMeasure p =
     2 * (length (Input p) - cursor p) + (if t p = newLine \<or> t p = failsafe then 1 else 0)"

lemma Next_measure_le: "Next s = Returns s' \<Longrightarrow> parseMeasure s' \<le> parseMeasure s"
  by (drule Next_progress) (auto simp: progress_def parseMeasure_def eof'_def split: if_splits)

lemma Next_measure_less:
  "Next s = Returns s' \<Longrightarrow> t s' \<noteq> eof \<Longrightarrow> parseMeasure s' < parseMeasure s"
  by (drule Next_progress) (auto simp: progress_def parseMeasure_def eof'_def split: if_splits)

lemma Next_measure_two:
  "Next s = Returns s1 \<Longrightarrow> t s1 \<noteq> eof \<Longrightarrow> Next s1 = Returns s2 \<Longrightarrow>
   parseMeasure s2 < parseMeasure s"
  using Next_measure_less [of s s1] Next_measure_le [of s1 s2] by simp

subsection \<open>The value model of \<open>ast.go\<close>\<close>

datatype sdlValueTag =
    tNull
  | tString
  | tInt
  | tFloat
  | tDateTime
  | tTimeSpan
  | tBool
  | tBinary

text \<open>
  \<open>SdlValue\<close> is a struct: a tag and one field for every kind of payload. A \<open>float64\<close> is
  kept as its 64 bits (the zero value is \<open>0\<close>), an \<open>int64\<close> as a 64-bit word, a \<open>[]byte\<close> as
  a list of bytes (\<open>nil\<close> is the empty list).
\<close>

type_synonym float64 = "64 word"
type_synonym byte = "8 word"

record SdlValue =
  tag :: sdlValueTag
  vString :: string
  vInt :: "64 word"
  vFloat :: float64
  vDateTime :: Time
  vTimeSpan :: Duration
  vBool :: bool
  vBinary :: "byte list"

text \<open>The zero value \<open>SdlValue{}\<close>; \<open>tNull\<close> is the constant 0 of its type.\<close>

definition zeroValue :: SdlValue where
  "zeroValue =
     \<lparr>tag = tNull, vString = [], vInt = 0, vFloat = 0, vDateTime = zeroTime, vTimeSpan = 0,
      vBool = False, vBinary = []\<rparr>"

definition Null :: SdlValue where
  "Null = zeroValue\<lparr>tag := tNull\<rparr>"

definition String :: "string \<Rightarrow> SdlValue" where
  "String v = zeroValue\<lparr>tag := tString, vString := v\<rparr>"

definition Int' :: "64 word \<Rightarrow> SdlValue" where
  "Int' v = zeroValue\<lparr>tag := tInt, vInt := v\<rparr>"

definition Float :: "float64 \<Rightarrow> SdlValue" where
  "Float v = zeroValue\<lparr>tag := tFloat, vFloat := v\<rparr>"

definition DateTime :: "Time \<Rightarrow> SdlValue" where
  "DateTime v = zeroValue\<lparr>tag := tDateTime, vDateTime := v\<rparr>"

definition TimeSpan :: "Duration \<Rightarrow> SdlValue" where
  "TimeSpan v = zeroValue\<lparr>tag := tTimeSpan, vTimeSpan := v\<rparr>"

definition Bool :: "bool \<Rightarrow> SdlValue" where
  "Bool v = zeroValue\<lparr>tag := tBool, vBool := v\<rparr>"

definition Binary :: "byte list \<Rightarrow> SdlValue" where
  "Binary v = zeroValue\<lparr>tag := tBinary, vBinary := v\<rparr>"

definition SdlValue_IsNull :: "SdlValue \<Rightarrow> bool" where "SdlValue_IsNull v \<longleftrightarrow> tag v = tNull"
definition SdlValue_IsString :: "SdlValue \<Rightarrow> bool" where "SdlValue_IsString v \<longleftrightarrow> tag v = tString"
definition SdlValue_IsInt :: "SdlValue \<Rightarrow> bool" where "SdlValue_IsInt v \<longleftrightarrow> tag v = tInt"
definition SdlValue_IsFloat :: "SdlValue \<Rightarrow> bool" where "SdlValue_IsFloat v \<longleftrightarrow> tag v = tFloat"
definition SdlValue_IsDateTime :: "SdlValue \<Rightarrow> bool" where "SdlValue_IsDateTime v \<longleftrightarrow> tag v = tDateTime"
definition SdlValue_IsTimeSpan :: "SdlValue \<Rightarrow> bool" where "SdlValue_IsTimeSpan v \<longleftrightarrow> tag v = tTimeSpan"
definition SdlValue_IsBool :: "SdlValue \<Rightarrow> bool" where "SdlValue_IsBool v \<longleftrightarrow> tag v = tBool"
definition SdlValue_IsBinary :: "SdlValue \<Rightarrow> bool" where "SdlValue_IsBinary v \<longleftrightarrow> tag v = tBinary"

text \<open>
  The accessors return a pair: the value and an \<open>error\<close>, which is \<open>nil\<close> (\<open>None\<close>) or
  \<open>errors.New(msg)\<close> (\<open>Some msg\<close>). \<open>SdlValue.DateTime\<close> returns \<open>time.Now()\<close> beside its
  error; the clock is the parameter \<open>now\<close>.
\<close>

definition SdlValue_String :: "SdlValue \<Rightarrow> string \<times> string option" where
  "SdlValue_String v =
     (if \<not> SdlValue_IsString v then ([], Some ''this value is not a string'')
      else (vString v, None))"

definition SdlValue_Int :: "SdlValue \<Rightarrow> 64 word \<times> string option" where
  "SdlValue_Int v =
     (if \<not> SdlValue_IsInt v then (0, Some ''this value is not an integer'')
      else (vInt v, None))"

definition SdlValue_Float :: "SdlValue \<Rightarrow> float64 \<times> string option" where
  "SdlValue_Float v =
     (if \<not> SdlValue_IsString v then (0, Some ''this value is not a float'')
      else (vFloat v, None))"

definition SdlValue_DateTime :: "Time \<Rightarrow> SdlValue \<Rightarrow> Time \<times> string option" where
  "SdlValue_DateTime now v =
     (if \<not> SdlValue_IsDateTime v then (now, Some ''this value is not a datetime'')
      else (vDateTime v, None))"

definition SdlValue_TimeSpan :: "SdlValue \<Rightarrow> Duration \<times> string option" where
  "SdlValue_TimeSpan v =
     (if \<not> SdlValue_IsTimeSpan v then (0, Some ''this value is not a timespan'')
      else (vTimeSpan v, None))"

definition SdlValue_Bool :: "SdlValue \<Rightarrow> bool \<times> string option" where
  "SdlValue_Bool v =
     (if \<not> SdlValue_IsBool v then (False, Some ''this value is not a bool'')
      else (vBool v, None))"

definition SdlValue_Binary :: "SdlValue \<Rightarrow> byte list \<times> string option" where
  "SdlValue_Binary v =
     (if \<not> SdlValue_IsBinary v then ([], Some ''this value is not a binary blob'')
      else (vBinary v, None))"

subsection \<open>Attributes and tags\<close>

text \<open>
  The fields of \<open>SdlAttribute\<close> are \<open>Namespace\<close>, \<open>Name\<close>, \<open>QualifiedName\<close> and \<open>Value\<close>, in
  this order; those of \<open>SdlTag\<close> are \<open>Namespace\<close>, \<open>Name\<close>, \<open>QualifiedName\<close>, \<open>Children\<close>,
  \<open>Attributes\<close> and \<open>Values\<close>. The map \<open>Attributes\<close> is a list of pairs with distinct keys
  (\<open>nil\<close> and the empty map are the empty list); the order of the pairs has no meaning.
\<close>

datatype SdlAttribute =
  SdlAttribute (attrNamespace: string) (attrName: string) (attrQualifiedName: string)
    (attrValue: SdlValue)

datatype SdlTag =
  SdlTag (Namespace: string) (Name: string) (QualifiedName: string) (Children: "SdlTag list")
    (Attributes: "(string \<times> SdlAttribute) list") (Values: "SdlValue list")

text \<open>The zero value \<open>SdlTag{}\<close>.\<close>

definition emptyTag :: SdlTag where
  "emptyTag = SdlTag [] [] [] [] [] []"

subsection \<open>\<open>handleValue\<close>\<close>

text \<open>
  Two functions of Go's standard library are parameters of the model.
  \<open>ParseFloat text\<close> is the value \<open>strconv.ParseFloat(text, 64)\<close> returns (the code drops
  the error). \<open>DecoderRead text n\<close> is what \<open>Read\<close> of a \<open>base64.NewDecoder\<close> over \<open>text\<close>
  writes into a buffer of \<open>n\<close> bytes; however much it decodes, \<open>Read(p)\<close> writes into the
  first \<open>len(p)\<close> bytes of \<open>p\<close> and cannot make the caller's slice longer.
\<close>

record stdlib =
  ParseFloat :: "string \<Rightarrow> float64"
  DecoderRead :: "string \<Rightarrow> nat \<Rightarrow> byte list"

definition Read :: "stdlib \<Rightarrow> string \<Rightarrow> byte list \<Rightarrow> byte list" where
  "Read lib txt' p =
     (let written = take (length p) (DecoderRead lib txt' (length p))
      in written @ drop (length written) p)"

definition handleValue :: "stdlib \<Rightarrow> SdlValue \<Rightarrow> SaxParser \<Rightarrow> SdlValue outcome" where
  "handleValue lib v p =
     (if IsBinary p then
        Returns (v\<lparr>tag := tBinary, vBinary := Read lib (Text p) (vBinary v)\<rparr>)
      else if IsBool p then
        Returns (v\<lparr>tag := tBool, vBool := Bool_of p\<rparr>)
      else if IsDate p \<or> IsDateTime p then
        Returns (v\<lparr>tag := tDateTime, vDateTime := Time_of p\<rparr>)
      else if IsDouble p \<or> IsFloat p then
        Returns (v\<lparr>tag := tFloat, vFloat := ParseFloat lib (Text p)\<rparr>)
      else if IsInteger p \<or> IsLong p then
        Returns (v\<lparr>tag := tInt, vInt := word_of_int (fst (ParseInt (Text p)))\<rparr>)
      else if IsNull p then
        Returns (v\<lparr>tag := tNull\<rparr>)
      else if IsString p then
        Returns (v\<lparr>tag := tString, vString := Text p\<rparr>)
      else if IsTimeSpan p then
        Returns (v\<lparr>tag := tTimeSpan, vTimeSpan := TimeSpan_of p\<rparr>)
      else Panics ''bug: this error should've been caught earlier on'')"

subsection \<open>\<open>ParseIntoAst\<close>\<close>

text \<open>
  \<open>namespace + ":" + name\<close>, without the colon when it comes first. The string is never
  empty, so reading its first byte cannot fail.
\<close>

definition qualifiedName :: "string \<Rightarrow> string \<Rightarrow> string" where
  "qualifiedName ns name =
     (let q = ns @ '':'' @ name in if hd q = CHR '':'' then tl q else q)"

definition newTag :: "SaxParser \<Rightarrow> SdlTag" where
  "newTag p =
     SdlTag (AdditionalText p) (Text p) (qualifiedName (AdditionalText p) (Text p)) [] [] []"

definition newAttribute :: "SaxParser \<Rightarrow> SdlValue \<Rightarrow> SdlAttribute" where
  "newAttribute p v =
     SdlAttribute (AdditionalText p) (Text p) (qualifiedName (AdditionalText p) (Text p)) v"

fun setAttribute :: "SdlAttribute \<Rightarrow> SdlTag \<Rightarrow> SdlTag" where
  "setAttribute a (SdlTag ns n q cs as vs) =
     SdlTag ns n q cs (AList.update (attrQualifiedName a) a as) vs"

fun appendValue :: "SdlValue \<Rightarrow> SdlTag \<Rightarrow> SdlTag" where
  "appendValue v (SdlTag ns n q cs as vs) = SdlTag ns n q cs as (vs @ [v])"

fun appendChild :: "SdlTag \<Rightarrow> SdlTag \<Rightarrow> SdlTag" where
  "appendChild child (SdlTag ns n q cs as vs) = SdlTag ns n q (cs @ [child]) as vs"

text \<open>
  The stack \<open>currTagStack\<close> is a list in the order of the slice: the root is element 0 and
  the open tag is the last element. \<open>onTop f\<close> is an assignment to a field of
  \<open>currTagStack[len(currTagStack)-1]\<close>. \<open>closeTop\<close> is the four lines that the code runs at
  the end of a line and at a closing brace: they read \<open>currTagStack[len(currTagStack)-2]\<close>,
  which panics when the root is the only element.
\<close>

definition onTop :: "(SdlTag \<Rightarrow> SdlTag) \<Rightarrow> SdlTag list \<Rightarrow> SdlTag list outcome" where
  "onTop f currTagStack =
     (if length currTagStack < 1 then Panics ''index out of range [-1]''
      else Returns (currTagStack[length currTagStack - 1 :=
                      f (currTagStack ! (length currTagStack - 1))]))"

definition closeTop :: "SdlTag list \<Rightarrow> SdlTag list outcome" where
  "closeTop currTagStack =
     (if length currTagStack < 2 then Panics ''index out of range [-1]''
      else
        let parent = currTagStack ! (length currTagStack - 2);
            child = currTagStack ! (length currTagStack - 1)
        in Returns (take (length currTagStack - 1)
                      (currTagStack[length currTagStack - 2 := appendChild child parent])))"

text \<open>
  One round of the loop \<open>for { ... }\<close> of \<open>ParseIntoAst\<close>, from the state of the round (the
  parser \<open>p\<close> and the locals \<open>currTagStack\<close> and \<open>prevWasNewLine\<close>): it leaves the loop by
  \<open>break\<close>, goes on to the next round with a new state, returns an error, or panics.
\<close>

datatype round = Break | Continue SaxParser "SdlTag list" bool

definition parseRound ::
  "stdlib \<Rightarrow> SaxParser \<Rightarrow> SdlTag list \<Rightarrow> bool \<Rightarrow> round outcome" where
  "parseRound lib p0 currTagStack prevWasNewLine =
     bind (Next p0) (\<lambda>p.
       if IsEof p then Returns Break
       else if IsTagName p then
         (if \<not> prevWasNewLine then
            NewError p 0 ''(probably a bug) Tag names can only appear at the start of new lines.''
          else Returns (Continue p (currTagStack @ [newTag p]) False))
       else if IsAttributeName p then
         bind (Next p) (\<lambda>p2.
         bind (handleValue lib zeroValue p2) (\<lambda>v.
         bind (onTop (setAttribute (newAttribute p v)) currTagStack) (\<lambda>stack.
           Returns (Continue p2 stack False))))
       else if IsNewLine p then
         (if \<not> prevWasNewLine then
            bind (closeTop currTagStack) (\<lambda>stack. Returns (Continue p stack True))
          else Returns (Continue p currTagStack True))
       else if IsOpenTag p then
         (if prevWasNewLine then
            NewError p 0 ''Opening braces have to be on the same line as a tag.''
          else
            bind (Next p) (\<lambda>p2.
              if \<not> IsNewLine p2 then
                NewError p2 0 ''Expected a new line following opening brace.''
              else Returns (Continue p2 currTagStack True)))
       else if IsCloseTag p then
         (if \<not> prevWasNewLine then
            NewError p 0 ''Closing braces must be on their own line.''
          else
            bind (Next p) (\<lambda>p2.
              if \<not> IsNewLine p2 \<and> \<not> IsEof p2 then
                NewError p2 0 ''Expected a new line or end of file following closing brace.''
              else
                bind (closeTop currTagStack) (\<lambda>stack. Returns (Continue p2 stack True))))
       else
         bind (handleValue lib zeroValue p) (\<lambda>v.
         bind (onTop (appendValue v) currTagStack) (\<lambda>stack.
           Returns (Continue p stack False))))"

lemma NewError_not_Returns [simp]: "NewError s off msg \<noteq> Returns x"
  by (simp add: NewError_def)

lemma parseRound_measure:
  assumes "parseRound lib p0 stack prev = Returns (Continue p stack' prev')"
  shows "parseMeasure p < parseMeasure p0"
proof -
  from assms obtain p1 where n1: "Next p0 = Returns p1" and ne: "t p1 \<noteq> eof"
    and p: "p = p1 \<or> (\<exists>p2. Next p1 = Returns p2 \<and> p = p2)"
    unfolding parseRound_def
    by (auto simp: bind_Returns_iff IsEof_def split: if_splits)
  from p show ?thesis
    using Next_measure_less [OF n1 ne] Next_measure_two [OF n1 ne] by auto
qed

text \<open>
  The loop, and \<open>return currTagStack[0], nil\<close> after it. The stack \<open>currTagStack\<close> at the
  \<open>break\<close> is the one the round started with.
\<close>

function parseLoop :: "stdlib \<Rightarrow> SaxParser \<Rightarrow> SdlTag list \<Rightarrow> bool \<Rightarrow> SdlTag outcome" where
  "parseLoop lib p currTagStack prevWasNewLine =
     (case parseRound lib p currTagStack prevWasNewLine of
        Fails e \<Rightarrow> Fails e
      | Panics m \<Rightarrow> Panics m
      | Returns Break \<Rightarrow>
          if currTagStack = [] then Panics ''index out of range [0]''
          else Returns (currTagStack ! 0)
      | Returns (Continue p' currTagStack' prevWasNewLine') \<Rightarrow>
          parseLoop lib p' currTagStack' prevWasNewLine')"
  by pat_completeness auto
termination
  by (relation "measure (\<lambda>(lib, p, currTagStack, prevWasNewLine). parseMeasure p)")
     (auto dest: parseRound_measure)

declare parseLoop.simps [simp del]

definition ParseIntoAst :: "stdlib \<Rightarrow> SaxParser \<Rightarrow> SdlTag outcome" where
  "ParseIntoAst lib p = parseLoop lib p [emptyTag] True"

subsection \<open>The number of rounds of the loop\<close>

text \<open>
  The loop of \<open>ParseIntoAst\<close> with a limit on the number of rounds: \<open>None\<close> when the rounds
  run out before the loop ends.
\<close>

fun parseLoopBounded ::
  "nat \<Rightarrow> stdlib \<Rightarrow> SaxParser \<Rightarrow> SdlTag list \<Rightarrow> bool \<Rightarrow> SdlTag outcome option" where
  "parseLoopBounded 0 lib p currTagStack prevWasNewLine = None"
| "parseLoopBounded (Suc n) lib p currTagStack prevWasNewLine =
     (case parseRound lib p currTagStack prevWasNewLine of
        Fails e \<Rightarrow> Some (Fails e)
      | Panics m \<Rightarrow> Some (Panics m)
      | Returns Break \<Rightarrow>
          Some (if currTagStack = [] then Panics ''index out of range [0]''
                else Returns (currTagStack ! 0))
      | Returns (Continue p' currTagStack' prevWasNewLine') \<Rightarrow>
          parseLoopBounded n lib p' currTagStack' prevWasNewLine')"

lemma parseLoopBounded_enough:
  "parseMeasure p < n \<Longrightarrow>
   parseLoopBounded n lib p stack prev = Some (parseLoop lib p stack prev)"
proof (induction n arbitrary: p stack prev)
  case 0
  then show ?case by simp
next
  case (Suc n)
  show ?case
  proof (cases "parseRound lib p stack prev")
    case (Returns r)
    show ?thesis
    proof (cases r)
      case Break
      with Returns show ?thesis by (subst parseLoop.simps) simp
    next
      case (Continue p' stack' prev')
      with Returns have "parseMeasure p' < parseMeasure p" by (simp add: parseRound_measure)
      with Suc.prems have "parseMeasure p' < n" by simp
      from Suc.IH [OF this] Returns Continue show ?thesis
        by (subst parseLoop.simps) simp
    qed
  next
    case (Fails e)
    then show ?thesis by (subst parseLoop.simps) simp
  next
    case (Panics m)
    then show ?thesis by (subst parseLoop.simps) simp
  qed
qed

lemma parseMeasure_bound: "parseMeasure p \<le> 2 * length (Input p) + 1"
  by (auto simp: parseMeasure_def)


subsection \<open>Blank input\<close>

lemma blank_parseLoop:
  "set (drop (cursor p) (Input p)) \<subseteq> {SP, TAB, LF} \<Longrightarrow>
   parseLoop lib p [emptyTag] True = Returns emptyTag"
proof (induction "length (Input p) - cursor p" arbitrary: p rule: less_induct)
  case less
  define s where "s = eatWhite p"
  have le: "cursor p \<le> cursor s" and inp: "Input s = Input p"
    by (simp_all add: s_def eatWhite_cursor)
  show ?case
  proof (cases "eof' s")
    case True
    then have "Next p = Returns (s\<lparr>t := eof\<rparr>)"
      by (subst Next.simps) (simp add: Let_def s_def)
    then show ?thesis
      by (subst parseLoop.simps) (simp add: parseRound_def IsEof_def)
  next
    case False
    then have lt: "cursor s < length (Input p)" by (simp add: eof'_def inp)
    have "Input p ! cursor s \<in> set (drop (cursor p) (Input p))"
      using le lt by (auto simp: in_set_conv_nth intro!: exI [of _ "cursor s - cursor p"])
    with less.prems have "peek s 0 \<in> {SP, TAB, LF}"
      using lt by (auto simp: peek_def inp)
    moreover from eatWhite_stops [of p] False have "peek s 0 \<noteq> SP" "peek s 0 \<noteq> TAB"
      by (simp_all add: s_def)
    ultimately have lf: "peek s 0 = LF" by auto
    define p' where "p' = (advance s 1)\<lparr>t := newLine\<rparr>"
    from False lf have nx: "Next p = Returns p'"
      by (subst Next.simps) (simp add: Let_def s_def [symmetric] p'_def)
    have m: "length (Input p') - cursor p' < length (Input p) - cursor p"
      using le lt by (simp add: p'_def inp)
    have "set (drop (cursor p') (Input p')) \<subseteq> set (drop (cursor p) (Input p))"
      using le by (simp add: p'_def inp set_drop_subset_set_drop)
    with less.prems have sub: "set (drop (cursor p') (Input p')) \<subseteq> {SP, TAB, LF}" by blast
    have "parseLoop lib p [emptyTag] True = parseLoop lib p' [emptyTag] True"
      using nx
      by (subst parseLoop.simps)
         (simp add: parseRound_def p'_def IsEof_def IsTagName_def IsAttributeName_def IsNewLine_def)
    with less.hyps [OF m sub] show ?thesis by simp
  qed
qed


section \<open>The claims\<close>

text \<open>
  C1. \<open>SdlValue.Float()\<close> should return the float payload exactly when the value holds the
  float variant, and an error for every other variant. The code guards the accessor with
  \<open>IsString\<close> instead of \<open>IsFloat\<close>: on a value built by \<open>Float(x)\<close> it returns the error
  "this value is not a float", and on a value built by \<open>String(str)\<close> it returns the default
  \<open>0\<close> with no error. It succeeds exactly on the string variant. The sibling accessor
  \<open>SdlValue.Int()\<close> tests its own variant and returns the payload of \<open>Int(n)\<close>.
\<close>

theorem C1_Float_accessor_tests_IsString:
  "SdlValue_Float (Float x) = (0, Some ''this value is not a float'') \<and>
   SdlValue_Float (String str) = (0, None) \<and>
   (snd (SdlValue_Float v) = None \<longleftrightarrow> SdlValue_IsString v) \<and>
   SdlValue_Int (Int' n) = (n, None)"
  by (simp add: SdlValue_Float_def SdlValue_Int_def SdlValue_IsString_def SdlValue_IsInt_def
      Float_def String_def Int'_def zeroValue_def)

text \<open>
  C2. The root returned by \<open>ParseIntoAst\<close> should have no values and no attributes of its
  own. The code does not keep to that when a line starts with \<open>true\<close>, \<open>on\<close>, \<open>false\<close>,
  \<open>off\<close> or \<open>null\<close>: the tokenizer reports a value and no tag name, so no tag is pushed and
  the value lands in the root. The input \<open>true\<close> gives a root with the value \<open>true\<close>, the
  input \<open>null\<close> a root with the value null, and \<open>true a=1\<close> a root with a value and the
  attribute \<open>a\<close>.
\<close>

theorem C2_root_holds_values_and_attributes:
  "ParseIntoAst lib (newSaxParser ''true'' name) = Returns (SdlTag [] [] [] [] [] [Bool True]) \<and>
   ParseIntoAst lib (newSaxParser ''null'' name) = Returns (SdlTag [] [] [] [] [] [Null]) \<and>
   ParseIntoAst lib (newSaxParser ''true a=1'' name) =
     Returns (SdlTag [] [] [] [] [(''a'', SdlAttribute [] ''a'' ''a'' (Int' 1))] [Bool True])"
  by code_simp

text \<open>
  C3. The literal \<open>1111/12/01 11:22:33.456\<close> should be the date-time 11:22:33 plus 456
  milliseconds. \<open>nextDateTime\<close> passes the three digits as the nanoseconds of \<open>time.Date\<close>:
  the token after the tag name \<open>t\<close> is a date-time whose value is
  \<open>time.Date(1111, 12, 1, 11, 22, 33, 456, time.UTC)\<close>, with 456 nanoseconds, and it is not
  the instant with 456 milliseconds (456000000 nanoseconds). The tree builder stores the same
  value.
\<close>

theorem C3_fraction_is_nanoseconds:
  "(case bind (Next (newSaxParser ''t 1111/12/01 11:22:33.456'' name)) Next of
      Returns s \<Rightarrow>
        IsDateTime s \<and> Time_of s = Date 1111 12 1 11 22 33 456 \<and>
        nsec (Time_of s) = 456 \<and>
        Time_of s \<noteq> Date 1111 12 1 11 22 33 456000000
    | Fails e \<Rightarrow> False
    | Panics m \<Rightarrow> False) \<and>
   ParseIntoAst lib (newSaxParser (''t 1111/12/01 11:22:33.456'' @ [LF]) name) =
     Returns (SdlTag [] [] []
       [SdlTag [] ''t'' ''t'' [] [] [DateTime (Date 1111 12 1 11 22 33 456)]] [] [])"
  by code_simp

text \<open>
  C4. A binary literal should decode to the bytes of its base64 text. \<open>handleValue\<close> hands
  the decoder the zero-length slice \<open>v.vBinary\<close> of a fresh value, and a \<open>Read\<close> into a
  slice of length 0 leaves it empty whatever the decoder produces: the line \<open>t [aGk]\<close>
  (base64 of the two bytes of "hi") gives a binary value with no bytes.
\<close>

theorem C4_binary_value_is_empty:
  "ParseIntoAst lib (newSaxParser (''t [aGk]'' @ [LF]) name) =
     Returns (SdlTag [] [] [] [SdlTag [] ''t'' ''t'' [] [] [Binary []]] [] []) \<and>
   Read lib txt' [] = []"
  by code_simp (simp add: Read_def)

text \<open>
  C5. \<open>ParseIntoAst\<close> should return a tag or an error for every input and never index the
  parse stack out of range. At a closing brace and at the end of a line that carried
  content, the code reads \<open>currTagStack[len(currTagStack)-2]\<close> without looking at the length
  of the stack: on the input \<open>}\<close>, and on the line \<open>true\<close> followed by a newline, the root is
  alone on the stack and the index is \<open>-1\<close>, a run-time panic.
\<close>

theorem C5_stack_underflow_panics:
  "ParseIntoAst lib (newSaxParser ''}'' name) = Panics ''index out of range [-1]'' \<and>
   ParseIntoAst lib (newSaxParser (''true'' @ [LF]) name) = Panics ''index out of range [-1]''"
  by code_simp

text \<open>
  C6. A parse should fail with an error or return the complete tree. At the end of the
  input the code returns \<open>currTagStack[0]\<close> and drops every tag that is still open: the
  unclosed block \<open>t {\<close>, \<open>a 1\<close> gives an empty root and no error, and so does the line
  \<open>t 1\<close> when no newline follows it. With the newline the tag \<open>t\<close> is in the tree.
\<close>

theorem C6_open_tags_are_dropped:
  "ParseIntoAst lib (newSaxParser (''t {'' @ [LF] @ ''a 1'' @ [LF]) name) = Returns emptyTag \<and>
   ParseIntoAst lib (newSaxParser ''t 1'' name) = Returns emptyTag \<and>
   ParseIntoAst lib (newSaxParser (''t 1'' @ [LF]) name) =
     Returns (SdlTag [] [] [] [SdlTag [] ''t'' ''t'' [] [] [Int' 1]] [] [])"
  by code_simp

subsection \<open>The sign of a time span\<close>

lemma digitsVal_nonneg: "list_all isDigit ds \<Longrightarrow> 0 \<le> n \<Longrightarrow> 0 \<le> digitsVal n ds"
proof (induction ds arbitrary: n)
  case Nil
  then show ?case by simp
next
  case (Cons d ds)
  from Cons.prems have "0 \<le> digitVal d"
    by (simp add: isDigit_def digitVal_def less_eq_char_def)
  with Cons show ?case by simp
qed

lemma Atoi_minus_nonpos: "fst (Atoi (CHR ''-'' # ds)) \<le> 0"
  using digitsVal_nonneg [of ds 0]
  by (auto simp: Atoi_def Let_def minInt64_def maxInt64_def)

lemma timeSpanOf_sign:
  "timeSpanOf True (- int d) h m s n = - timeSpanOf False (int d) h m s n"
  "timeSpanOf False (- int (Suc d)) h m s n = timeSpanOf True (- int (Suc d)) h m s n"
  by (simp_all add: timeSpanOf_def Let_def)

lemma peek_of_drop:
  "drop (cursor s) (Input s) = xs \<Longrightarrow> peek s k = (if k < length xs then xs ! k else CHR 0xFF)"
  by (auto simp: peek_def)

lemma slice_of_drop:
  "drop (cursor s) (Input s) = xs \<Longrightarrow> xs \<noteq> [] \<Longrightarrow> a \<le> b \<Longrightarrow> b \<le> length xs \<Longrightarrow>
   slice (Input s) (cursor s + a) (cursor s + b) = Returns (take (b - a) (drop a xs))"
  by (auto simp: slice_def add.commute)

lemma digit_not_dot: "isDigit c \<Longrightarrow> c \<noteq> CHR ''.''"
  by (auto simp: isDigit_def less_eq_char_def)

lemma numericLoop_digits:
  "drop (cursor s) (Input s) = run @ rest \<Longrightarrow> list_all isDigit run \<Longrightarrow>
   rest = [] \<or> (\<not> isDigit (hd rest) \<and> hd rest \<noteq> CHR ''.'') \<Longrightarrow>
   numericLoop s fd = Returns (s\<lparr>cursor := cursor s + length run\<rparr>, fd)"
proof (induction run arbitrary: s)
  case Nil
  show ?case
  proof (cases "eof' s")
    case True
    then show ?thesis by (subst numericLoop.simps) simp
  next
    case False
    with Nil have "rest \<noteq> []" by (auto simp: eof'_def)
    with Nil have "peek s 0 = hd rest"
      by (simp add: peek_of_drop [of s rest] hd_conv_nth)
    with Nil \<open>rest \<noteq> []\<close> False show ?thesis
      by (subst numericLoop.simps) simp
  qed
next
  case (Cons d run)
  from Cons.prems(1) have ne: "\<not> eof' s" by (auto simp: eof'_def)
  from Cons.prems(1) have pk: "peek s 0 = d" by (simp add: peek_of_drop [of s "(d # run) @ rest"])
  from Cons.prems(2) have dg: "isDigit d" "list_all isDigit run" by simp_all
  from Cons.prems(1) have "drop (Suc (cursor s)) (Input s) = run @ rest"
    by (metis append_Cons drop_Suc tl_drop list.sel(3))
  then have dr: "drop (cursor (advance s 1)) (Input (advance s 1)) = run @ rest" by simp
  have "numericLoop s fd = numericLoop (advance s 1) fd"
    using ne pk dg digit_not_dot [of d] by (subst numericLoop.simps) simp
  also have "\<dots> = Returns ((advance s 1)\<lparr>cursor := cursor (advance s 1) + length run\<rparr>, fd)"
    using Cons.IH [OF dr dg(2) Cons.prems(3)] .
  also have "(advance s 1)\<lparr>cursor := cursor (advance s 1) + length run\<rparr>
             = s\<lparr>cursor := cursor s + length (d # run)\<rparr>"
    by (simp add: advance_def)
  finally show ?case .
qed

lemma nextTimeSpan_days:
  "first \<noteq> [] \<Longrightarrow> peek s 0 = CHR ''d'' \<Longrightarrow> peek s 1 = CHR '':'' \<Longrightarrow>
   nextTimeSpan s first = timeSpanFields (hd first = CHR ''-'') (advance s 2) first"
  by (simp add: nextTimeSpan_def timeSpanFields_def Let_def)

lemma nextTimeSpan_no_days:
  "first \<noteq> [] \<Longrightarrow> peek s 0 \<noteq> CHR ''d'' \<Longrightarrow>
   nextTimeSpan s first =
     timeSpanFields (hd first = CHR ''-'')
       (s\<lparr>cursor := cursor s - length first + (if hd first = CHR ''-'' then 1 else 0)\<rparr>) []"
  by (simp add: nextTimeSpan_def timeSpanFields_def Let_def)

lemma timeSpanFields_plain:
  assumes d: "drop (cursor s1) (Input s1) = [h1, h2, CHR '':'', m1, m2, CHR '':'', c1, c2] @ rest"
    and r: "rest = [] \<or> hd rest \<noteq> CHR ''.''"
  shows "timeSpanFields neg s1 days =
           Returns ((advance s1 8)\<lparr>t := timeSpan,
              timeSpan' := timeSpanOf neg (fst (Atoi days)) (fst (Atoi [h1, h2]))
                (fst (Atoi [m1, m2])) (fst (Atoi [c1, c2])) (fst (Atoi []))\<rparr>)"
proof -
  note pk = peek_of_drop [OF d]
  have p2: "peek s1 2 = CHR '':''" and p5: "peek s1 5 = CHR '':''" by (simp_all add: pk)
  have p8: "peek s1 8 \<noteq> CHR ''.''"
    using r by (cases rest) (simp_all add: pk)
  have ne: "[h1, h2, CHR '':'', m1, m2, CHR '':'', c1, c2] @ rest \<noteq> []" by simp
  have s0: "slice (Input s1) (cursor s1) (Suc (Suc (cursor s1))) = Returns [h1, h2]"
    using slice_of_drop [OF d ne, of 0 2] by simp
  have s3: "slice (Input s1) (cursor s1 + 3) (cursor s1 + 5) = Returns [m1, m2]"
    using slice_of_drop [OF d ne, of 3 5] by simp
  have s6: "slice (Input s1) (cursor s1 + 6) (cursor s1 + 8) = Returns [c1, c2]"
    using slice_of_drop [OF d ne, of 6 8] by simp
  show ?thesis
    by (simp add: timeSpanFields_def Let_def p2 p5 p8 s0 s3 s6)
qed

lemma timeSpanFields_millis:
  assumes d: "drop (cursor s1) (Input s1) =
                [h1, h2, CHR '':'', m1, m2, CHR '':'', c1, c2, CHR ''.'', f1, f2, f3] @ rest"
    and f: "isDigit f1" "isDigit f2" "isDigit f3"
  shows "timeSpanFields neg s1 days =
           Returns ((advance s1 12)\<lparr>t := timeSpan,
              timeSpan' := timeSpanOf neg (fst (Atoi days)) (fst (Atoi [h1, h2]))
                (fst (Atoi [m1, m2])) (fst (Atoi [c1, c2])) (fst (Atoi [f1, f2, f3]))\<rparr>)"
proof -
  note pk = peek_of_drop [OF d]
  have p2: "peek s1 2 = CHR '':''" and p5: "peek s1 5 = CHR '':''"
    and p8: "peek s1 8 = CHR ''.''"
    and p9: "peek s1 9 = f1" "peek s1 10 = f2" "peek s1 11 = f3"
    by (simp_all add: pk)
  have ne: "[h1, h2, CHR '':'', m1, m2, CHR '':'', c1, c2, CHR ''.'', f1, f2, f3] @ rest \<noteq> []"
    by simp
  have s0: "slice (Input s1) (cursor s1) (Suc (Suc (cursor s1))) = Returns [h1, h2]"
    using slice_of_drop [OF d ne, of 0 2] by simp
  have s3: "slice (Input s1) (cursor s1 + 3) (cursor s1 + 5) = Returns [m1, m2]"
    using slice_of_drop [OF d ne, of 3 5] by simp
  have s6: "slice (Input s1) (cursor s1 + 6) (cursor s1 + 8) = Returns [c1, c2]"
    using slice_of_drop [OF d ne, of 6 8] by simp
  have s9: "slice (Input s1) (cursor s1 + 9) (cursor s1 + 12) = Returns [f1, f2, f3]"
    using slice_of_drop [OF d ne, of 9 12] by simp
  show ?thesis
    by (simp add: timeSpanFields_def Let_def p2 p5 p8 p9 f s0 s3 s6 s9)
qed

lemma digit_chars:
  assumes "isDigit c"
  shows "c \<noteq> CHR ''/''" "c \<noteq> CHR ''-''" "c \<noteq> CHR ''#''" "c \<noteq> LF" "c \<noteq> CR" "c \<noteq> BACKSLASH"
    "c \<noteq> CHR ''{''" "c \<noteq> CHR ''}''" "c \<noteq> SP" "c \<noteq> TAB" "c \<noteq> CHR ''+''" "c \<noteq> CHR ''d''"
    "c \<noteq> CHR '':''" "\<not> isIdentifierStart c"
  using assms by (auto simp: isDigit_def isIdentifierStart_def less_eq_char_def)

lemma minus_chars:
  "\<not> isIdentifierStart (CHR ''-'')" "\<not> isDigit (CHR ''d'')" "\<not> isDigit (CHR '':'')"
  by (simp_all add: isDigit_def isIdentifierStart_def less_eq_char_def)

lemma eatWhite_id: "peek s 0 \<noteq> SP \<Longrightarrow> peek s 0 \<noteq> TAB \<Longrightarrow> eatWhite s = s"
  by (subst eatWhite.simps) simp

lemma value_start_chars:
  assumes "isDigit c \<or> c = CHR ''-''"
  shows "c \<noteq> CHR ''/''" "c \<noteq> CHR ''#''" "c \<noteq> LF" "c \<noteq> CR" "c \<noteq> BACKSLASH"
    "c \<noteq> CHR ''{''" "c \<noteq> CHR ''}''" "c \<noteq> SP" "c \<noteq> TAB" "\<not> isIdentifierStart c"
    "c \<noteq> DQUOTE" "c \<noteq> BACKTICK" "c \<noteq> CHR ''[''"
  using assms by (auto simp: isDigit_def isIdentifierStart_def less_eq_char_def)

lemma Next_is_nextNumeric:
  assumes d: "drop (cursor s) (Input s) = c # cs"
    and c: "isDigit c \<or> (c = CHR ''-'' \<and> cs \<noteq> [] \<and> isDigit (hd cs))"
    and ts: "t s \<noteq> newLine" "t s \<noteq> failsafe"
  shows "Next s = nextNumeric s"
proof -
  have p0: "peek s 0 = c" by (simp add: peek_of_drop [OF d])
  have ne: "\<not> eof' s" using d by (auto simp: eof'_def)
  from c have c': "isDigit (peek s 0) \<or> peek s 0 = CHR ''-''" by (auto simp: p0)
  note ch = value_start_chars [OF c']
  have p1: "\<not> (peek s 0 = CHR ''-'' \<and> peek s 1 = CHR ''-'')"
  proof
    assume a: "peek s 0 = CHR ''-'' \<and> peek s 1 = CHR ''-''"
    with digit_chars(2) [of c] c p0 have "cs \<noteq> []" "isDigit (hd cs)" by auto
    with a digit_chars(2) [of "hd cs"] show False
      by (cases cs) (auto simp: peek_of_drop [OF d])
  qed
  have nc: "\<not> ((peek s 0 = CHR ''/'' \<and> peek s 1 = CHR ''/'') \<or>
                 (peek s 0 = CHR ''-'' \<and> peek s 1 = CHR ''-'') \<or> peek s 0 = CHR ''#'')"
    using ch(1,2) p1 by blast
  have nb: "\<not> (peek s 0 = BACKSLASH \<and> peek s 1 = LF)" using ch(5) by blast
  have nt: "\<not> (t s = newLine \<or> t s = failsafe)" using ts by blast
  have ew: "eatWhite s = s" using ch(8,9) by (rule eatWhite_id)
  show ?thesis
    by (rule Next.simps [of s, unfolded Let_def ew if_not_P [OF ne] if_not_P [OF nc]
          if_not_P [OF ch(3)] if_not_P [OF ch(4)] if_not_P [OF nb] if_not_P [OF ch(10)]
          if_not_P [OF ch(6)] if_not_P [OF ch(7)] if_not_P [OF nt] if_not_P [OF ch(11)]
          if_not_P [OF ch(12)] if_not_P [OF ch(13)] if_P [OF c']])
qed

lemma drop_add_append:
  "drop c xs = ys @ zs \<Longrightarrow> drop (c + length ys) xs = zs"
  by (metis add.commute append_eq_conv_conj drop_drop)

lemma nextNumeric_run:
  assumes d: "drop (cursor s) (Input s) = sign @ run @ rest"
    and sg: "sign = (if neg then ''-'' else [])"
    and run: "run \<noteq> []" "list_all isDigit run"
    and rest: "rest \<noteq> []" "hd rest = CHR ''d'' \<or> hd rest = CHR '':''"
    and p4: "peek s 4 \<noteq> CHR ''/''"
  shows "nextNumeric s =
           nextTimeSpan (s\<lparr>cursor := cursor s + length sign + length run\<rparr>) (sign @ run)"
proof -
  from run obtain r rs where rr: "run = r # rs" and dr: "isDigit r" by (cases run) auto
  have p0: "peek s 0 = CHR ''-'' \<longleftrightarrow> neg"
    using digit_chars(2) [OF dr] by (simp add: peek_of_drop [OF d] sg rr)
  define s1 where "s1 = (if peek s 0 = CHR ''-'' then advance s 1 else s)"
  have c1: "cursor s1 = cursor s + length sign" and i1: "Input s1 = Input s"
    by (simp_all add: s1_def p0 sg)
  have d1: "drop (cursor s1) (Input s1) = run @ rest"
    unfolding c1 i1 using d by (rule drop_add_append)
  have stop: "rest = [] \<or> (\<not> isDigit (hd rest) \<and> hd rest \<noteq> CHR ''.'')"
    using rest(2) minus_chars by auto
  define s2 where "s2 = s\<lparr>cursor := cursor s + length sign + length run\<rparr>"
  have s2: "s1\<lparr>cursor := cursor s1 + length run\<rparr> = s2"
    by (simp add: s1_def s2_def p0 sg advance_def)
  have nl: "numericLoop s1 False = Returns (s2, False)"
    using numericLoop_digits [OF d1 run(2) stop, of False] by (simp add: s2)
  have ne: "sign @ run @ rest \<noteq> []" using run by simp
  have c2: "cursor s2 = cursor s + (length sign + length run)" and i2: "Input s2 = Input s"
    by (simp_all add: s2_def)
  have sl: "slice (Input s2) (cursor s) (cursor s2) = Returns (sign @ run)"
    unfolding c2 i2
    using slice_of_drop [OF d ne, of 0 "length sign + length run"] by simp
  have "drop (cursor s + length (sign @ run)) (Input s) = rest"
    using d by (intro drop_add_append) simp
  then have d2: "drop (cursor s2) (Input s2) = rest" by (simp add: c2 i2)
  have pk: "peek s2 0 = CHR ''d'' \<or> peek s2 0 = CHR '':''"
    using rest by (simp add: peek_of_drop [OF d2] hd_conv_nth)
  have p4': "\<not> peek s 4 = CHR ''/''" using p4 .
  show ?thesis
    unfolding nextNumeric_def Let_def if_not_P [OF p4'] s1_def [symmetric]
    by (simp add: nl sl pk s2_def [symmetric])
qed

lemma Atoi_digits:
  assumes "run \<noteq> []" "list_all isDigit run" "digitsVal 0 run \<le> maxInt64"
  shows "fst (Atoi run) = digitsVal 0 run"
proof -
  from assms(1,2) obtain r rs where rr: "run = r # rs" and dr: "isDigit r" by (cases run) auto
  have "0 \<le> digitsVal 0 run" using assms(2) by (intro digitsVal_nonneg) simp_all
  then show ?thesis
    using assms digit_chars(2,11) [OF dr]
    by (simp add: Atoi_def Let_def rr minInt64_def)
qed

lemma Atoi_minus_digits:
  assumes "run \<noteq> []" "list_all isDigit run" "digitsVal 0 run \<le> maxInt64"
  shows "fst (Atoi (CHR ''-'' # run)) = - digitsVal 0 run"
proof -
  have "0 \<le> digitsVal 0 run" using assms(2) by (intro digitsVal_nonneg) simp_all
  then show ?thesis
    using assms by (simp add: Atoi_def Let_def minInt64_def maxInt64_def)
qed

lemma Atoi_Nil: "fst (Atoi []) = 0"
  by (simp add: Atoi_def)

lemma digitVal_range: "isDigit c \<Longrightarrow> 0 \<le> digitVal c \<and> digitVal c \<le> 9"
  by (auto simp: isDigit_def digitVal_def less_eq_char_def)

lemma Atoi_two:
  assumes "isDigit a" "isDigit b"
  shows "fst (Atoi [a, b]) = digitsVal 0 [a, b]"
  using digitVal_range [OF assms(1)] digitVal_range [OF assms(2)] assms
  by (intro Atoi_digits) (simp_all add: maxInt64_def)

lemma Atoi_three:
  assumes "isDigit a" "isDigit b" "isDigit c"
  shows "fst (Atoi [a, b, c]) = digitsVal 0 [a, b, c]"
  using digitVal_range [OF assms(1)] digitVal_range [OF assms(2)] digitVal_range [OF assms(3)] assms
  by (intro Atoi_digits) (simp_all add: maxInt64_def)

lemma timeSpanOf_word:
  "0 \<le> D \<Longrightarrow>
   timeSpanOf neg (if neg then - D else D) h m c n =
     word_of_int ((if neg then - 1 else 1) *
       (D * 86400000000000 + h * 3600000000000 + m * 60000000000 + c * 1000000000 + n * 1000000))"
  by (simp add: timeSpanOf_def Let_def Hour_def Minute_def Second_def Millisecond_def
      Microsecond_def Nanosecond_def algebra_simps)

lemma two_chars: "length xs = 2 \<Longrightarrow> list_all isDigit xs \<Longrightarrow>
    \<exists>a b. xs = [a, b] \<and> isDigit a \<and> isDigit b"
  by (cases xs; cases "tl xs") auto

lemma three_chars: "length xs = 3 \<Longrightarrow> list_all isDigit xs \<Longrightarrow>
    \<exists>a b c. xs = [a, b, c] \<and> isDigit a \<and> isDigit b \<and> isDigit c"
  by (cases xs; cases "tl xs"; cases "tl (tl xs)") auto

lemma timeSpanFields_literal:
  assumes d: "drop (cursor s1) (Input s1) =
                hh @ '':'' @ mm @ '':'' @ cc @ (case ms of None \<Rightarrow> [] | Some fs \<Rightarrow> ''.'' @ fs) @ rest"
    and hh: "length hh = 2" "list_all isDigit hh"
    and mm: "length mm = 2" "list_all isDigit mm"
    and cc: "length cc = 2" "list_all isDigit cc"
    and ms: "case ms of None \<Rightarrow> True | Some fs \<Rightarrow> length fs = 3 \<and> list_all isDigit fs"
    and nf: "\<not> (ms = None \<and> take 1 rest = ''.'')"
  shows "timeSpanFields neg s1 days =
           Returns ((advance s1 (8 + length (case ms of None \<Rightarrow> [] | Some fs \<Rightarrow> ''.'' @ fs)))
             \<lparr>t := timeSpan,
              timeSpan' := timeSpanOf neg (fst (Atoi days)) (digitsVal 0 hh) (digitsVal 0 mm)
                (digitsVal 0 cc) (case ms of None \<Rightarrow> 0 | Some fs \<Rightarrow> digitsVal 0 fs)\<rparr>)"
proof -
  from two_chars [OF hh] obtain h1 h2 where h: "hh = [h1, h2]" "isDigit h1" "isDigit h2" by blast
  from two_chars [OF mm] obtain m1 m2 where m: "mm = [m1, m2]" "isDigit m1" "isDigit m2" by blast
  from two_chars [OF cc] obtain c1 c2 where c: "cc = [c1, c2]" "isDigit c1" "isDigit c2" by blast
  note at = Atoi_two [OF h(2,3)] Atoi_two [OF m(2,3)] Atoi_two [OF c(2,3)]
  show ?thesis
  proof (cases ms)
    case None
    from d have d': "drop (cursor s1) (Input s1) =
                       [h1, h2, CHR '':'', m1, m2, CHR '':'', c1, c2] @ rest"
      by (simp add: h m c None)
    from nf None have r: "rest = [] \<or> hd rest \<noteq> CHR ''.''" by (cases rest) auto
    show ?thesis
      using timeSpanFields_plain [OF d' r, of neg days]
      by (simp add: h(1) m(1) c(1) None at Atoi_Nil del: digitsVal.simps)
  next
    case (Some fs)
    with ms have "length fs = 3" "list_all isDigit fs" by simp_all
    from three_chars [OF this] obtain f1 f2 f3 where
      f: "fs = [f1, f2, f3]" "isDigit f1" "isDigit f2" "isDigit f3" by blast
    from d have d': "drop (cursor s1) (Input s1) =
        [h1, h2, CHR '':'', m1, m2, CHR '':'', c1, c2, CHR ''.'', f1, f2, f3] @ rest"
      by (simp add: h m c Some f)
    show ?thesis
      using timeSpanFields_millis [OF d' f(2,3,4), of neg days]
      by (simp add: h(1) m(1) c(1) Some f(1) at Atoi_three [OF f(2,3,4)] del: digitsVal.simps)
  qed
qed

lemma literalText_length:
  "wellFormedLiteral l \<Longrightarrow> 8 \<le> length (literalText l)"
  by (simp add: literalText_def wellFormedLiteral_def)

lemma literalText_no_slash:
  assumes wf: "wellFormedLiteral l"
  shows "CHR ''/'' \<notin> set (literalText l)"
proof -
  have dg: "list_all isDigit xs \<Longrightarrow> CHR ''/'' \<notin> set xs" for xs
    using digit_chars(1) by (auto simp: list_all_iff)
  from wf have a: "CHR ''/'' \<notin> set (litHours l)" "CHR ''/'' \<notin> set (litMinutes l)"
    "CHR ''/'' \<notin> set (litSeconds l)"
    by (simp_all add: wellFormedLiteral_def dg)
  from wf have b: "CHR ''/'' \<notin> set (case litDays l of None \<Rightarrow> [] | Some ds \<Rightarrow> ds @ ''d:'')"
    by (cases "litDays l") (simp_all add: wellFormedLiteral_def dg)
  from wf have c: "CHR ''/'' \<notin> set (case litMillis l of None \<Rightarrow> [] | Some fs \<Rightarrow> ''.'' @ fs)"
    by (cases "litMillis l") (simp_all add: wellFormedLiteral_def dg)
  have e: "CHR ''/'' \<notin> set (if litNegative l then ''-'' else [])" by simp
  show ?thesis
    unfolding literalText_def set_append using a b c e by simp
qed

lemma literal_peek4:
  assumes wf: "wellFormedLiteral l" and d: "drop (cursor s) (Input s) = literalText l @ rest"
  shows "peek s 4 \<noteq> CHR ''/''"
proof -
  from literalText_length [OF wf] have len: "4 < length (literalText l)" by simp
  then have "peek s 4 = literalText l ! 4"
    by (simp add: peek_of_drop [OF d] nth_append)
  moreover from len have "literalText l ! 4 \<in> set (literalText l)" by (rule nth_mem)
  ultimately show ?thesis using literalText_no_slash [OF wf] by auto
qed

lemma Next_duration_front:
  assumes d: "drop (cursor s) (Input s) =
                (if neg then ''-'' else []) @ (case days of None \<Rightarrow> [] | Some ds \<Rightarrow> ds @ ''d:'') @
                [h1, h2] @ CHR '':'' # tail"
    and dd: "case days of None \<Rightarrow> True | Some ds \<Rightarrow> ds \<noteq> [] \<and> list_all isDigit ds"
    and h: "isDigit h1" "isDigit h2"
    and p4: "peek s 4 \<noteq> CHR ''/''"
    and ts: "t s \<noteq> newLine" "t s \<noteq> failsafe"
  shows "\<exists>s1. Next s =
             timeSpanFields neg s1 (case days of None \<Rightarrow> [] | Some ds \<Rightarrow> (if neg then ''-'' else []) @ ds) \<and>
           Input s1 = Input s \<and>
           cursor s1 = cursor s + length (if neg then ''-'' else [])
                         + length (case days of None \<Rightarrow> [] | Some ds \<Rightarrow> ds @ ''d:'') \<and>
           drop (cursor s1) (Input s1) = [h1, h2] @ CHR '':'' # tail"
proof -
  define sign where "sign = (if neg then ''-'' else [])"
  have sg: "sign = (if neg then ''-'' else [])" by (simp add: sign_def)
  show ?thesis
  proof (cases days)
    case None
    let ?rest = "CHR '':'' # tail"
    from d have d0: "drop (cursor s) (Input s) = sign @ [h1, h2] @ ?rest"
      by (simp add: None sign_def)
    obtain c cs where dc: "drop (cursor s) (Input s) = c # cs"
      and cc: "isDigit c \<or> (c = CHR ''-'' \<and> cs \<noteq> [] \<and> isDigit (hd cs))"
      using d0 h by (cases neg) (simp_all add: sign_def)
    have n1: "Next s = nextNumeric s" using dc cc ts by (rule Next_is_nextNumeric)
    define s2 where "s2 = s\<lparr>cursor := cursor s + length sign + length [h1, h2]\<rparr>"
    have n2: "nextNumeric s = nextTimeSpan s2 (sign @ [h1, h2])"
      unfolding s2_def using d0 sg _ _ _ _ p4 by (rule nextNumeric_run) (simp_all add: h)
    have "drop (cursor s + length (sign @ [h1, h2])) (Input s) = ?rest"
      using d0 by (intro drop_add_append) simp
    then have d2: "drop (cursor s2) (Input s2) = ?rest" by (simp add: s2_def add.assoc)
    have pk: "peek s2 0 \<noteq> CHR ''d''" by (simp add: peek_of_drop [OF d2])
    have hdf: "hd (sign @ [h1, h2]) = CHR ''-'' \<longleftrightarrow> neg"
      using digit_chars(2) [OF h(1)] by (simp add: sign_def)
    define s1 where "s1 = s\<lparr>cursor := cursor s + length sign\<rparr>"
    have s1: "s2\<lparr>cursor := cursor s2 - length (sign @ [h1, h2]) + (if neg then 1 else 0)\<rparr> = s1"
      by (simp add: s1_def s2_def sign_def)
    have "nextTimeSpan s2 (sign @ [h1, h2]) =
            timeSpanFields (hd (sign @ [h1, h2]) = CHR ''-'')
              (s2\<lparr>cursor := cursor s2 - length (sign @ [h1, h2])
                 + (if hd (sign @ [h1, h2]) = CHR ''-'' then 1 else 0)\<rparr>) []"
      using _ pk by (rule nextTimeSpan_no_days) simp
    then have n3: "nextTimeSpan s2 (sign @ [h1, h2]) = timeSpanFields neg s1 []"
      by (simp only: hdf s1)
    have d1: "drop (cursor s1) (Input s1) = [h1, h2] @ ?rest"
      using drop_add_append [OF d0] by (simp add: s1_def)
    show ?thesis
      using n1 n2 n3 d1 by (intro exI [of _ s1]) (simp add: None s1_def sign_def)
  next
    case (Some ds)
    with dd have ds: "ds \<noteq> []" "list_all isDigit ds" by simp_all
    then obtain r rs where rr: "ds = r # rs" and dr: "isDigit r" by (cases ds) auto
    let ?rest = "''d:'' @ [h1, h2] @ CHR '':'' # tail"
    from d have d0: "drop (cursor s) (Input s) = sign @ ds @ ?rest"
      by (simp add: Some sign_def)
    obtain c cs where dc: "drop (cursor s) (Input s) = c # cs"
      and cc: "isDigit c \<or> (c = CHR ''-'' \<and> cs \<noteq> [] \<and> isDigit (hd cs))"
      using d0 dr by (cases neg) (simp_all add: sign_def rr)
    have n1: "Next s = nextNumeric s" using dc cc ts by (rule Next_is_nextNumeric)
    define s2 where "s2 = s\<lparr>cursor := cursor s + length sign + length ds\<rparr>"
    have n2: "nextNumeric s = nextTimeSpan s2 (sign @ ds)"
      unfolding s2_def using d0 sg ds _ _ p4 by (rule nextNumeric_run) simp_all
    have "drop (cursor s + length (sign @ ds)) (Input s) = ?rest"
      using d0 by (intro drop_add_append) simp
    then have d2: "drop (cursor s2) (Input s2) = ?rest" by (simp add: s2_def add.assoc)
    have pk: "peek s2 0 = CHR ''d''" "peek s2 1 = CHR '':''"
      by (simp_all add: peek_of_drop [OF d2])
    have hdf: "hd (sign @ ds) = CHR ''-'' \<longleftrightarrow> neg"
      using digit_chars(2) [OF dr] by (simp add: sign_def rr)
    have "nextTimeSpan s2 (sign @ ds) =
            timeSpanFields (hd (sign @ ds) = CHR ''-'') (advance s2 2) (sign @ ds)"
      using _ pk by (rule nextTimeSpan_days) (simp add: ds)
    then have n3: "nextTimeSpan s2 (sign @ ds) = timeSpanFields neg (advance s2 2) (sign @ ds)"
      by (simp only: hdf)
    have "drop (cursor s2 + length ''d:'') (Input s2) = [h1, h2] @ CHR '':'' # tail"
      using d2 by (intro drop_add_append) simp
    then have d1: "drop (cursor (advance s2 2)) (Input (advance s2 2)) = [h1, h2] @ CHR '':'' # tail"
      by simp
    show ?thesis
      using n1 n2 n3 d1
      by (intro exI [of _ "advance s2 2"]) (simp add: Some s2_def sign_def)
  qed
qed

lemma Next_duration_literal:
  assumes wf: "wellFormedLiteral l"
    and d: "drop (cursor s) (Input s) = literalText l @ rest"
    and ts: "t s \<noteq> newLine" "t s \<noteq> failsafe"
    and nf: "\<not> (litMillis l = None \<and> take 1 rest = ''.'')"
    and bd: "literalMagnitude l < 2 ^ 63"
  shows "\<exists>s'. Next s = Returns s' \<and> IsTimeSpan s' \<and> Input s' = Input s \<and>
           cursor s' = cursor s + length (literalText l) \<and>
           sint (TimeSpan_of s') =
             (if litNegative l then - literalMagnitude l else literalMagnitude l)"
proof -
  define neg where "neg = litNegative l"
  define F where "F = (case litMillis l of None \<Rightarrow> [] | Some fs \<Rightarrow> ''.'' @ fs)"
  define D where "D = (case litDays l of None \<Rightarrow> 0 | Some ds \<Rightarrow> digitsVal 0 ds)"
  define N where "N = (case litMillis l of None \<Rightarrow> 0 | Some fs \<Rightarrow> digitsVal 0 fs)"
  define days where
    "days = (case litDays l of None \<Rightarrow> [] | Some ds \<Rightarrow> (if neg then ''-'' else []) @ ds)"
  from wf have dd: "case litDays l of None \<Rightarrow> True | Some ds \<Rightarrow> ds \<noteq> [] \<and> list_all isDigit ds"
    and hh: "length (litHours l) = 2" "list_all isDigit (litHours l)"
    and mm: "length (litMinutes l) = 2" "list_all isDigit (litMinutes l)"
    and cc: "length (litSeconds l) = 2" "list_all isDigit (litSeconds l)"
    and ms: "case litMillis l of None \<Rightarrow> True | Some fs \<Rightarrow> length fs = 3 \<and> list_all isDigit fs"
    by (simp_all add: wellFormedLiteral_def)
  from two_chars [OF hh] obtain h1 h2 where h: "litHours l = [h1, h2]" "isDigit h1" "isDigit h2"
    by blast
  define tail where "tail = litMinutes l @ '':'' @ litSeconds l @ F @ rest"
  have d': "drop (cursor s) (Input s) =
              (if neg then ''-'' else []) @ (case litDays l of None \<Rightarrow> [] | Some ds \<Rightarrow> ds @ ''d:'') @
              [h1, h2] @ CHR '':'' # tail"
    using d by (simp add: literalText_def h(1) tail_def F_def neg_def)
  from Next_duration_front [OF d' dd h(2,3) literal_peek4 [OF wf d] ts]
  obtain s1 where n: "Next s = timeSpanFields neg s1 days"
    and i1: "Input s1 = Input s"
    and c1: "cursor s1 = cursor s + length (if neg then ''-'' else [])
                + length (case litDays l of None \<Rightarrow> [] | Some ds \<Rightarrow> ds @ ''d:'')"
    and d1: "drop (cursor s1) (Input s1) = [h1, h2] @ CHR '':'' # tail"
    unfolding days_def by blast
  have d1': "drop (cursor s1) (Input s1) =
               litHours l @ '':'' @ litMinutes l @ '':'' @ litSeconds l @
               (case litMillis l of None \<Rightarrow> [] | Some fs \<Rightarrow> ''.'' @ fs) @ rest"
    using d1 by (simp add: h(1) tail_def F_def)
  define V where "V = timeSpanOf neg (fst (Atoi days)) (digitsVal 0 (litHours l))
                        (digitsVal 0 (litMinutes l)) (digitsVal 0 (litSeconds l)) N"
  define s' where "s' = (advance s1 (8 + length F))\<lparr>t := timeSpan, timeSpan' := V\<rparr>"
  have r: "timeSpanFields neg s1 days = Returns s'"
    using timeSpanFields_literal [OF d1' hh mm cc ms nf, of neg days]
    by (simp only: s'_def V_def F_def N_def)
  have len: "length (literalText l) =
               length (if neg then ''-'' else [])
               + length (case litDays l of None \<Rightarrow> [] | Some ds \<Rightarrow> ds @ ''d:'') + 8 + length F"
    using hh mm cc by (simp add: literalText_def F_def neg_def)
  have cur: "cursor s' = cursor s + length (literalText l)"
    by (simp add: s'_def c1 len)
  have nn: "0 \<le> D" "0 \<le> digitsVal 0 (litHours l)" "0 \<le> digitsVal 0 (litMinutes l)"
    "0 \<le> digitsVal 0 (litSeconds l)" "0 \<le> N"
    using dd hh mm cc ms
    by (auto simp: D_def N_def split: option.splits intro!: digitsVal_nonneg)
  have mag: "literalMagnitude l = D * 86400000000000 + digitsVal 0 (litHours l) * 3600000000000
      + digitsVal 0 (litMinutes l) * 60000000000 + digitsVal 0 (litSeconds l) * 1000000000
      + N * 1000000"
    by (simp add: literalMagnitude_def D_def N_def)
  have m0: "0 \<le> literalMagnitude l" unfolding mag using nn by simp
  have Dle: "D \<le> maxInt64" using bd nn unfolding mag maxInt64_def by simp
  have at: "fst (Atoi days) = (if neg then - D else D)"
  proof (cases "litDays l")
    case None
    then show ?thesis by (simp add: days_def D_def Atoi_Nil)
  next
    case (Some ds)
    with dd Dle have ds: "ds \<noteq> []" "list_all isDigit ds" "digitsVal 0 ds \<le> maxInt64"
      by (simp_all add: D_def)
    show ?thesis
      using Atoi_digits [OF ds] Atoi_minus_digits [OF ds]
      by (simp add: days_def D_def Some)
  qed
  have Vw: "V = word_of_int ((if neg then - 1 else 1) * literalMagnitude l)"
    unfolding V_def at mag using nn(1) by (rule timeSpanOf_word)
  have "sint V = (if neg then - 1 else 1) * literalMagnitude l"
    unfolding Vw sint_sbintrunc'
    using m0 bd by (intro signed_take_bit_int_eq_self) simp_all
  then have val: "sint (TimeSpan_of s') =
                    (if litNegative l then - literalMagnitude l else literalMagnitude l)"
    by (simp add: s'_def TimeSpan_of_def neg_def)
  show ?thesis
    using n r cur val by (intro exI [of _ s']) (simp add: s'_def IsTimeSpan_def i1)
qed

lemma eatWhite_blanks:
  "drop (cursor s) (Input s) = ws @ c # cs \<Longrightarrow> list_all (\<lambda>x. x = SP \<or> x = TAB) ws \<Longrightarrow>
   c \<noteq> SP \<Longrightarrow> c \<noteq> TAB \<Longrightarrow> eatWhite s = advance s (length ws)"
proof (induction ws arbitrary: s)
  case Nil
  then have "peek s 0 = c" by (simp add: peek_of_drop [of s "c # cs"])
  with Nil show ?case by (simp add: eatWhite_id advance_def)
next
  case (Cons w ws)
  from Cons.prems(1) have p: "peek s 0 = w" by (simp add: peek_of_drop [of s "w # ws @ c # cs"])
  from Cons.prems(1) have ne: "\<not> eof' s" by (auto simp: eof'_def)
  from Cons.prems(1) have "drop (Suc (cursor s)) (Input s) = ws @ c # cs"
    by (simp add: drop_Suc tl_drop [symmetric])
  then have d: "drop (cursor (advance s 1)) (Input (advance s 1)) = ws @ c # cs"
    by (simp add: advance_def)
  from Cons.prems(2) have w: "w = SP \<or> w = TAB" and ws: "list_all (\<lambda>x. x = SP \<or> x = TAB) ws"
    by simp_all
  have "eatWhite s = eatWhite (advance s 1)"
    using p ne w by (subst eatWhite.simps) auto
  also have "\<dots> = advance (advance s 1) (length ws)"
    by (rule Cons.IH [OF d ws Cons.prems(3,4)])
  finally show ?case by (simp add: advance_def)
qed

lemma Next_skips_blanks:
  assumes d: "drop (cursor s) (Input s) = ws @ c # cs"
    and ws: "list_all (\<lambda>x. x = SP \<or> x = TAB) ws"
    and c: "c \<noteq> SP" "c \<noteq> TAB"
  shows "Next s = Next (advance s (length ws))"
proof -
  let ?s1 = "advance s (length ws)"
  have e: "eatWhite s = ?s1" by (rule eatWhite_blanks [OF d ws c])
  have "drop (cursor ?s1) (Input ?s1) = c # cs"
    using drop_add_append [OF d] by (simp add: advance_def)
  then have "peek ?s1 0 = c" by (simp add: peek_of_drop [of ?s1 "c # cs"])
  with c have e1: "eatWhite ?s1 = ?s1" by (simp add: eatWhite_id)
  show ?thesis
    by (rule trans [OF Next.simps [of s, unfolded e] Next.simps [of ?s1, unfolded e1, symmetric]])
qed

lemma literalText_head:
  assumes wf: "wellFormedLiteral l"
  shows "\<exists>c cs. literalText l = c # cs \<and> c \<noteq> SP \<and> c \<noteq> TAB"
proof -
  from wf have hh: "length (litHours l) = 2" "list_all isDigit (litHours l)"
    and dd: "case litDays l of None \<Rightarrow> True | Some ds \<Rightarrow> ds \<noteq> [] \<and> list_all isDigit ds"
    by (simp_all add: wellFormedLiteral_def)
  from two_chars [OF hh] obtain h1 h2 where h: "litHours l = [h1, h2]" "isDigit h1" by blast
  show ?thesis
  proof (cases "litNegative l")
    case True
    then show ?thesis by (simp add: literalText_def)
  next
    case False
    show ?thesis
    proof (cases "litDays l")
      case None
      with False h digit_chars(9,10) [OF h(2)] show ?thesis by (simp add: literalText_def)
    next
      case (Some ds)
      with dd obtain e es where ds: "ds = e # es" "isDigit e" by (cases ds) auto
      with False Some digit_chars(9,10) [OF ds(2)] show ?thesis by (simp add: literalText_def)
    qed
  qed
qed

text \<open>
  C8. A duration literal is an optional \<open>-\<close>, an optional day prefix (digits and \<open>d:\<close>), two
  digits each of hours, minutes and seconds, and optionally a \<open>.\<close> and three digits of
  milliseconds; its magnitude is the sum of these fields in nanoseconds. The code stores the
  value in a \<open>time.Duration\<close>, a signed 64-bit count of nanoseconds. For every such literal
  whose magnitude is below \<open>2^63\<close> nanoseconds (a little over 106751 days), read as a value
  (after a tag name, an attribute or another value, behind any blanks), \<open>Next\<close> returns a time
  span token, consumes exactly the literal, and the value is the magnitude when there is no
  \<open>-\<close> and minus the whole magnitude when there is one: the \<open>-\<close> is scanned with the digits
  of the days, makes the days negative and sets the sign flag, and the two together negate
  once. A literal without milliseconds must not be followed by a \<open>.\<close>, which would start the
  milliseconds.
\<close>

theorem C8_sign_applies_to_whole_magnitude:
  assumes wf: "wellFormedLiteral l"
    and d: "drop (cursor s) (Input s) = ws @ literalText l @ rest"
    and ws: "list_all (\<lambda>x. x = SP \<or> x = TAB) ws"
    and ts: "t s \<noteq> newLine" "t s \<noteq> failsafe"
    and nf: "\<not> (litMillis l = None \<and> take 1 rest = ''.'')"
    and bd: "literalMagnitude l < 2 ^ 63"
  shows "\<exists>s'. Next s = Returns s' \<and> IsTimeSpan s' \<and> Input s' = Input s \<and>
           cursor s' = cursor s + length ws + length (literalText l) \<and>
           sint (TimeSpan_of s') =
             (if litNegative l then - literalMagnitude l else literalMagnitude l)"
proof -
  let ?s1 = "advance s (length ws)"
  from literalText_head [OF wf] obtain c cs where
    lt: "literalText l = c # cs" and c: "c \<noteq> SP" "c \<noteq> TAB" by blast
  from d have d0: "drop (cursor s) (Input s) = ws @ c # (cs @ rest)" by (simp add: lt)
  have n: "Next s = Next ?s1" by (rule Next_skips_blanks [OF d0 ws c])
  have d1: "drop (cursor ?s1) (Input ?s1) = literalText l @ rest"
    using drop_add_append [OF d] by (simp add: advance_def)
  have ts1: "t ?s1 \<noteq> newLine" "t ?s1 \<noteq> failsafe" using ts by (simp_all add: advance_def)
  from Next_duration_literal [OF wf d1 ts1 nf bd] show ?thesis
    unfolding n by (simp add: advance_def)
qed

theorem C8_sign_applies_to_whole_magnitude_witness:
  "Next (newSaxParser ''t -55d:11:22:33.444 -00:02:30'' []) =
     Returns ((newSaxParser ''t -55d:11:22:33.444 -00:02:30'' [])
                \<lparr>cursor := 1, t := tagName, text' := ''t''\<rparr>) \<and>
   wellFormedLiteral
     \<lparr>litNegative = True, litDays = Some ''55'', litHours = ''11'', litMinutes = ''22'',
      litSeconds = ''33'', litMillis = Some ''444''\<rparr> \<and>
   literalText
     \<lparr>litNegative = True, litDays = Some ''55'', litHours = ''11'', litMinutes = ''22'',
      litSeconds = ''33'', litMillis = Some ''444''\<rparr> = ''-55d:11:22:33.444'' \<and>
   literalMagnitude
     \<lparr>litNegative = True, litDays = Some ''55'', litHours = ''11'', litMinutes = ''22'',
      litSeconds = ''33'', litMillis = Some ''444''\<rparr> = 4792953444000000 \<and>
   wellFormedLiteral
     \<lparr>litNegative = True, litDays = None, litHours = ''00'', litMinutes = ''02'',
      litSeconds = ''30'', litMillis = None\<rparr> \<and>
   literalText
     \<lparr>litNegative = True, litDays = None, litHours = ''00'', litMinutes = ''02'',
      litSeconds = ''30'', litMillis = None\<rparr> = ''-00:02:30'' \<and>
   literalMagnitude
     \<lparr>litNegative = True, litDays = None, litHours = ''00'', litMinutes = ''02'',
      litSeconds = ''30'', litMillis = None\<rparr> = 150000000000 \<and>
   (\<exists>s'. Next ((newSaxParser ''t -55d:11:22:33.444 -00:02:30'' [])
                 \<lparr>cursor := 1, t := tagName, text' := ''t''\<rparr>) = Returns s' \<and>
         IsTimeSpan s' \<and> cursor s' = 19 \<and>
         sint (TimeSpan_of s') = - 4792953444000000 \<and>
         (\<exists>s''. Next s' = Returns s'' \<and> IsTimeSpan s'' \<and> cursor s'' = 29 \<and>
                sint (TimeSpan_of s'') = - 150000000000))"
proof -
  let ?inp = "''t -55d:11:22:33.444 -00:02:30''"
  let ?S = "(newSaxParser ?inp [])\<lparr>cursor := 1, t := tagName, text' := ''t''\<rparr>"
  let ?L1 = "\<lparr>litNegative = True, litDays = Some ''55'', litHours = ''11'', litMinutes = ''22'',
      litSeconds = ''33'', litMillis = Some ''444''\<rparr>"
  let ?L2 = "\<lparr>litNegative = True, litDays = None, litHours = ''00'', litMinutes = ''02'',
      litSeconds = ''30'', litMillis = None\<rparr>"
  have n0: "Next (newSaxParser ?inp []) = Returns ?S" by code_simp
  have w1: "wellFormedLiteral ?L1" by code_simp
  have t1: "literalText ?L1 = ''-55d:11:22:33.444''" by code_simp
  have m1: "literalMagnitude ?L1 = 4792953444000000" by code_simp
  have w2: "wellFormedLiteral ?L2" by code_simp
  have t2: "literalText ?L2 = ''-00:02:30''" by code_simp
  have m2: "literalMagnitude ?L2 = 150000000000" by code_simp
  have d1: "drop (cursor ?S) (Input ?S) = '' '' @ literalText ?L1 @ '' -00:02:30''"
    unfolding t1 by (simp add: newSaxParser_def)
  have b1: "list_all (\<lambda>x. x = SP \<or> x = TAB) '' ''" by simp
  have ts: "t ?S \<noteq> newLine" "t ?S \<noteq> failsafe" by simp_all
  have nf1: "\<not> (litMillis ?L1 = None \<and> take 1 '' -00:02:30'' = ''.'')" by simp
  have bd1: "literalMagnitude ?L1 < 2 ^ 63" unfolding m1 by simp
  from C8_sign_applies_to_whole_magnitude [OF w1 d1 b1 ts nf1 bd1]
  obtain s' where s': "Next ?S = Returns s'" "IsTimeSpan s'" "Input s' = ?inp" "cursor s' = 19"
    "sint (TimeSpan_of s') = - 4792953444000000"
    unfolding t1 m1 by (auto simp: newSaxParser_def)
  have d2: "drop (cursor s') (Input s') = '' '' @ literalText ?L2 @ []"
    unfolding t2 s'(3,4) by simp
  have ts2: "t s' \<noteq> newLine" "t s' \<noteq> failsafe" using s'(2) by (simp_all add: IsTimeSpan_def)
  have nf2: "\<not> (litMillis ?L2 = None \<and> take 1 [] = ''.'')" by simp
  have bd2: "literalMagnitude ?L2 < 2 ^ 63" unfolding m2 by simp
  from C8_sign_applies_to_whole_magnitude [OF w2 d2 b1 ts2 nf2 bd2]
  obtain s'' where s'': "Next s' = Returns s''" "IsTimeSpan s''" "cursor s'' = 29"
    "sint (TimeSpan_of s'') = - 150000000000"
    unfolding t2 m2 s'(4) by auto
  from s' s'' have "\<exists>s'. Next ?S = Returns s' \<and> IsTimeSpan s' \<and> cursor s' = 19 \<and>
         sint (TimeSpan_of s') = - 4792953444000000 \<and>
         (\<exists>s''. Next s' = Returns s'' \<and> IsTimeSpan s'' \<and> cursor s'' = 29 \<and>
                sint (TimeSpan_of s'') = - 150000000000)"
    by blast
  with n0 w1 t1 m1 w2 t2 m2 show ?thesis by blast
qed

text \<open>
  The bound on the magnitude is needed, so the property does not hold for every duration
  literal. \<open>-106752d:00:00:00\<close> is a well-formed literal of magnitude 9223372800000000000
  nanoseconds, more than \<open>2^63 - 1\<close>: the product \<open>time.Hour * 24 * 106752\<close> wraps around
  to a negative \<open>time.Duration\<close>, and the negation that follows makes the value of the
  token positive, 9223371273709551616 nanoseconds, although the literal starts with \<open>-\<close>.
\<close>

theorem C8_sign_wraps_counterexample:
  "wellFormedLiteral
     \<lparr>litNegative = True, litDays = Some ''106752'', litHours = ''00'', litMinutes = ''00'',
      litSeconds = ''00'', litMillis = None\<rparr> \<and>
   literalText
     \<lparr>litNegative = True, litDays = Some ''106752'', litHours = ''00'', litMinutes = ''00'',
      litSeconds = ''00'', litMillis = None\<rparr> = ''-106752d:00:00:00'' \<and>
   literalMagnitude
     \<lparr>litNegative = True, litDays = Some ''106752'', litHours = ''00'', litMinutes = ''00'',
      litSeconds = ''00'', litMillis = None\<rparr> = 9223372800000000000 \<and>
   bind (Next (newSaxParser ''t -106752d:00:00:00'' [])) Next =
     Returns ((newSaxParser ''t -106752d:00:00:00'' [])
                \<lparr>cursor := 19, t := timeSpan, text' := ''t'',
                 timeSpan' := 9223371273709551616\<rparr>) \<and>
   sint (TimeSpan_of ((newSaxParser ''t -106752d:00:00:00'' [])
                \<lparr>cursor := 19, t := timeSpan, text' := ''t'',
                 timeSpan' := 9223371273709551616\<rparr>)) = 9223371273709551616"
proof -
  have a: "wellFormedLiteral
     \<lparr>litNegative = True, litDays = Some ''106752'', litHours = ''00'', litMinutes = ''00'',
      litSeconds = ''00'', litMillis = None\<rparr>" by code_simp
  have b: "literalText
     \<lparr>litNegative = True, litDays = Some ''106752'', litHours = ''00'', litMinutes = ''00'',
      litSeconds = ''00'', litMillis = None\<rparr> = ''-106752d:00:00:00''" by code_simp
  have c: "literalMagnitude
     \<lparr>litNegative = True, litDays = Some ''106752'', litHours = ''00'', litMinutes = ''00'',
      litSeconds = ''00'', litMillis = None\<rparr> = 9223372800000000000" by code_simp
  have d: "bind (Next (newSaxParser ''t -106752d:00:00:00'' [])) Next =
     Returns ((newSaxParser ''t -106752d:00:00:00'' [])
                \<lparr>cursor := 19, t := timeSpan, text' := ''t'',
                 timeSpan' := 9223371273709551616\<rparr>)" by code_simp
  have e: "sint (TimeSpan_of ((newSaxParser ''t -106752d:00:00:00'' [])
                \<lparr>cursor := 19, t := timeSpan, text' := ''t'',
                 timeSpan' := 9223371273709551616\<rparr>)) = 9223371273709551616"
    by (simp add: TimeSpan_of_def)
  from a b c d e show ?thesis by blast
qed

subsection \<open>The end of the input\<close>

lemma Next_eof_is_end: "Next s = Returns s' \<Longrightarrow> IsEof s' \<Longrightarrow> eof' s'"
  by (drule Next_progress) (simp add: progress_def IsEof_def)

lemma Next_at_end: "eof' s \<Longrightarrow> Next s = Returns (s\<lparr>t := eof\<rparr>)"
  by (subst Next.simps) (simp add: eatWhite_eof)

text \<open>
  C10. Once a call of \<open>Next\<close> has returned without error and reports the end of the input,
  the next call returns without error too, changes nothing, and still reports the end of
  the input.
\<close>

theorem C10_eof_is_idempotent:
  "Next s = Returns s' \<Longrightarrow> IsEof s' \<Longrightarrow> Next s' = Returns s' \<and> IsEof s'"
  using Next_at_end [OF Next_eof_is_end, of s s'] by (simp add: IsEof_def)

theorem C10_eof_is_idempotent_witness:
  "Next (newSaxParser '' '' []) = Returns ((newSaxParser '' '' [])\<lparr>cursor := 1, t := eof\<rparr>) \<and>
   IsEof ((newSaxParser '' '' [])\<lparr>cursor := 1, t := eof\<rparr>) \<and>
   Next ((newSaxParser '' '' [])\<lparr>cursor := 1, t := eof\<rparr>) =
     Returns ((newSaxParser '' '' [])\<lparr>cursor := 1, t := eof\<rparr>)"
proof -
  have a: "Next (newSaxParser '' '' []) = Returns ((newSaxParser '' '' [])\<lparr>cursor := 1, t := eof\<rparr>)"
    by code_simp
  have b: "IsEof ((newSaxParser '' '' [])\<lparr>cursor := 1, t := eof\<rparr>)"
    by (simp add: IsEof_def)
  from C10_eof_is_idempotent [OF a b] a b show ?thesis by simp
qed

lemma content_token_keeps_cursor:
  "Next (newSaxParser ''1'' name) = Returns ((newSaxParser ''1'' name)\<lparr>t := tagName, text' := ''content''\<rparr>)"
  by code_simp

text \<open>
  C7. A parse of a finite input terminates, and the number of rounds of the tree-building
  loop is bounded by the length of the input. A call of \<open>Next\<close> that returns never moves the
  cursor back, also when the time span lexer backtracks; it ends at the end of the input, or
  moves the cursor forward, or is the one branch that consumes nothing, the tag name
  \<open>content\<close>, which is taken only from the state where a tag name is expected and leaves that
  state. So every returned token other than the end of the input makes \<open>parseMeasure\<close>
  smaller, and the loop of \<open>ParseIntoAst\<close> ends (with a tree, an error or a panic) within
  \<open>2 * len(Input) + 2\<close> rounds, from any state of the parser and of the locals.
\<close>

theorem C7_parse_terminates:
  "(Next s = Returns s' \<longrightarrow>
      progress s s' \<and> (\<not> IsEof s' \<longrightarrow> parseMeasure s' < parseMeasure s)) \<and>
   parseLoopBounded (2 * length (Input p) + 2) lib p stack prev
     = Some (parseLoop lib p stack prev) \<and>
   parseLoopBounded (2 * length input + 2) lib (newSaxParser input name) [emptyTag] True
     = Some (ParseIntoAst lib (newSaxParser input name))"
proof (intro conjI impI)
  assume "Next s = Returns s'"
  then show "progress s s'" by (rule Next_progress)
next
  assume "Next s = Returns s'" "\<not> IsEof s'"
  then show "parseMeasure s' < parseMeasure s" by (simp add: Next_measure_less IsEof_def)
next
  show "parseLoopBounded (2 * length (Input p) + 2) lib p stack prev
     = Some (parseLoop lib p stack prev)"
    using parseMeasure_bound [of p] by (intro parseLoopBounded_enough) simp
next
  show "parseLoopBounded (2 * length input + 2) lib (newSaxParser input name) [emptyTag] True
     = Some (ParseIntoAst lib (newSaxParser input name))"
    unfolding ParseIntoAst_def
    using parseMeasure_bound [of "newSaxParser input name"]
    by (intro parseLoopBounded_enough) (simp add: newSaxParser_def)
qed

theorem C7_parse_terminates_witness:
  "Next ((newSaxParser ''t -00:02:30'' [])\<lparr>cursor := 1, t := tagName\<rparr>)
     = Returns ((newSaxParser ''t -00:02:30'' [])
                  \<lparr>cursor := 11, t := timeSpan, timeSpan' := - 150000000000\<rparr>) \<and>
   progress ((newSaxParser ''t -00:02:30'' [])\<lparr>cursor := 1, t := tagName\<rparr>)
     ((newSaxParser ''t -00:02:30'' [])
        \<lparr>cursor := 11, t := timeSpan, timeSpan' := - 150000000000\<rparr>) \<and>
   parseMeasure ((newSaxParser ''t -00:02:30'' [])
                   \<lparr>cursor := 11, t := timeSpan, timeSpan' := - 150000000000\<rparr>)
     < parseMeasure ((newSaxParser ''t -00:02:30'' [])\<lparr>cursor := 1, t := tagName\<rparr>)"
proof -
  let ?s = "(newSaxParser ''t -00:02:30'' [])\<lparr>cursor := 1, t := tagName\<rparr>"
  let ?s' = "(newSaxParser ''t -00:02:30'' [])
               \<lparr>cursor := 11, t := timeSpan, timeSpan' := - 150000000000\<rparr>"
  have a: "Next ?s = Returns ?s'" by code_simp
  have b: "\<not> IsEof ?s'" by (simp add: IsEof_def)
  from C7_parse_terminates [of ?s ?s'] a b show ?thesis by simp
qed

text \<open>
  C9. For every input made of spaces, tabs and newlines only (the empty input too)
  \<open>ParseIntoAst\<close> succeeds and returns a root with no children, no values and no attributes.
\<close>

theorem C9_blank_input_gives_empty_root:
  "set input \<subseteq> {SP, TAB, LF} \<Longrightarrow>
   ParseIntoAst lib (newSaxParser input name) = Returns (SdlTag [] [] [] [] [] [])"
  using blank_parseLoop [of "newSaxParser input name" lib]
  by (simp add: ParseIntoAst_def newSaxParser_def emptyTag_def)

theorem C9_blank_input_gives_empty_root_witness:
  "set [SP, TAB, LF, SP] \<subseteq> {SP, TAB, LF} \<and>
   ParseIntoAst \<lparr>ParseFloat = (\<lambda>s. 0), DecoderRead = (\<lambda>s n. [])\<rparr>
     (newSaxParser [SP, TAB, LF, SP] []) = Returns (SdlTag [] [] [] [] [] []) \<and>
   ParseIntoAst \<lparr>ParseFloat = (\<lambda>s. 0), DecoderRead = (\<lambda>s n. [])\<rparr>
     (newSaxParser [] []) = Returns (SdlTag [] [] [] [] [] [])"
  using C9_blank_input_gives_empty_root
          [of "[SP, TAB, LF, SP]" "\<lparr>ParseFloat = (\<lambda>s. 0), DecoderRead = (\<lambda>s n. [])\<rparr>" "[]"]
    C9_blank_input_gives_empty_root
          [of "[]" "\<lparr>ParseFloat = (\<lambda>s. 0), DecoderRead = (\<lambda>s n. [])\<rparr>" "[]"]
  by simp

end
